theory Spec2Isabelle
  imports Main "HOL-Library.Multiset" "HOL-Library.Word"
begin

section \<open>JavaScript values used by the schedule calendar\<close>

text \<open>
  The component \<open>ScheduleCalendar\<close> exists in two revisions: the file of unknown name
  (\<open>src/unnamed/part_000\<close>, multi-select filters and an overridable conflict dialog) and
  \<open>src/src/ScheduleCalendar.jsx\<close> (single-select filters, conflicts block the move).
  The helpers \<open>getWeekStart\<close>, \<open>toTimeString\<close>, \<open>rowsToEvents\<close> and \<open>timesOverlap\<close> are
  identical in both; the two drop handlers are modelled separately below.

  Modelling conventions.
  \<^item> A JavaScript number that comes from a \<open>Date\<close> getter is an \<open>int option\<close>:
    \<open>None\<close> is \<open>NaN\<close>. The same type holds the arguments of \<open>setHours\<close>, which
    takes the integer part of a finite argument.
  \<^item> A \<open>Date\<close> is its time value in milliseconds, read in local time; \<open>None\<close> is an
    \<open>Invalid Date\<close>. The local zone is taken to have a constant offset (no
    daylight-saving transition), so local getters and setters are plain arithmetic on
    the time value, and the \<open>TimeClip\<close> range of ECMAScript is not modelled.
  \<^item> A column value of a store row is \<open>null\<close>, an integer or a string. The integers are
    the signed 54-bit ones (from \<open>-2^53\<close> to \<open>2^53 - 1\<close>): each is a double exactly, and
    \<open>String\<close> prints it in plain decimal.
\<close>

type_synonym number = "int option"
type_synonym date = "int option"

datatype jsval = JNull | JNum "54 word" | JStr string

datatype error = TypeError

definition msPerSecond :: int where "msPerSecond = 1000"
definition msPerMinute :: int where "msPerMinute = 60000"
definition msPerHour :: int where "msPerHour = 3600000"
definition msPerDay :: int where "msPerDay = 86400000"

subsection \<open>Number and string conversions\<close>

definition digit_char :: "nat \<Rightarrow> char" where
  "digit_char d = char_of (48 + d)"

function dec_nat :: "nat \<Rightarrow> string" where
  "dec_nat n = (if n < 10 then [digit_char n] else dec_nat (n div 10) @ [digit_char (n mod 10)])"
  by pat_completeness auto
termination
  by (relation "measure id") auto

declare dec_nat.simps [simp del]

text \<open>\<open>String(n)\<close> for an integral number, and \<open>String(NaN)\<close>.\<close>

definition dec_int :: "int \<Rightarrow> string" where
  "dec_int i = (if i < 0 then CHR ''-'' # dec_nat (nat (- i)) else dec_nat (nat i))"

definition String_number :: "number \<Rightarrow> string" where
  "String_number x = (case x of None \<Rightarrow> ''NaN'' | Some i \<Rightarrow> dec_int i)"

text \<open>\<open>String(v)\<close> and the string conversion of a template literal \<open>`${v}`\<close>.\<close>

fun String_js :: "jsval \<Rightarrow> string" where
  "String_js JNull = ''null''"
| "String_js (JNum i) = dec_int (sint i)"
| "String_js (JStr s) = s"

text \<open>Truthiness, as tested by \<open>c ? a : b\<close>.\<close>

fun truthy :: "jsval \<Rightarrow> bool" where
  "truthy JNull = False"
| "truthy (JNum i) = (i \<noteq> 0)"
| "truthy (JStr s) = (s \<noteq> [])"

text \<open>\<open>s.padStart(2, '0')\<close>.\<close>

definition padStart2 :: "string \<Rightarrow> string" where
  "padStart2 s = replicate (2 - length s) CHR ''0'' @ s"

text \<open>
  The result of \<open>Number(s)\<close> is used in two ways only: as an argument of \<open>setHours\<close>
  and under \<open>|| 0\<close>. For both it is enough to know whether the double is \<open>NaN\<close>, is
  infinite, or is finite with a given integer part (\<open>setHours\<close> truncates toward zero).
\<close>

datatype parsed = PNaN | PInf | PFin int

definition is_digit :: "char \<Rightarrow> bool" where
  "is_digit c = ((48::nat) \<le> of_char c \<and> (of_char c :: nat) \<le> 57)"

definition digit_val :: "char \<Rightarrow> int" where
  "digit_val c = int (of_char c :: nat) - 48"

text \<open>
  \<open>Number(s)\<close>. For a string of at most 15 decimal digits, as in the components of an
  \<open>HH:MM:SS\<close> column, the value is the integer the digits spell (\<open>Number('')\<close> is 0);
  it is below \<open>2^53\<close>, so the double is exact. For any other string (signs, blanks,
  fractions, exponents, hexadecimal, longer digit strings, anything else) the result is
  what the built-in yields; its class is the parameter \<open>builtin\<close>. What is proved below
  holds for every \<open>builtin\<close>, hence for the one of the language.
\<close>

definition Number_js :: "(string \<Rightarrow> parsed) \<Rightarrow> string \<Rightarrow> parsed" where
  "Number_js builtin s =
     (if list_all is_digit s \<and> length s \<le> 15
      then PFin (foldl (\<lambda>acc c. acc * 10 + digit_val c) 0 s)
      else builtin s)"

text \<open>\<open>s.split(':')\<close>: always at least one piece.\<close>

fun split_colon :: "string \<Rightarrow> string list" where
  "split_colon [] = [[]]"
| "split_colon (c # cs) =
     (if c = CHR '':'' then [] # split_colon cs
      else (case split_colon cs of
              [] \<Rightarrow> [[c]]
            | p # ps \<Rightarrow> (c # p) # ps))"

text \<open>
  Array destructuring \<open>const [a, b, c] = xs\<close>: a missing element is \<open>undefined\<close>. The only
  uses of the destructured values are as arguments of \<open>setHours\<close> (where \<open>undefined\<close>
  converts to \<open>NaN\<close>) and under \<open>|| 0\<close> (where \<open>undefined\<close> and \<open>NaN\<close> are both falsy), so
  \<open>undefined\<close> is represented by \<open>NaN\<close>.
\<close>

definition elem :: "parsed list \<Rightarrow> nat \<Rightarrow> parsed" where
  "elem xs i = (if i < length xs then xs ! i else PNaN)"

text \<open>
  \<open>x || 0\<close> on the result of \<open>Number\<close>: \<open>NaN\<close> and zero are falsy; any other number is
  kept (a non-zero number with integer part 0 stays in the class \<open>PFin 0\<close>).
\<close>

definition or0_parsed :: "parsed \<Rightarrow> parsed" where
  "or0_parsed x = (case x of PNaN \<Rightarrow> PFin 0 | PInf \<Rightarrow> PInf | PFin v \<Rightarrow> PFin v)"

text \<open>
  A \<open>Number\<close> result passed to \<open>setHours\<close>: the integer part of a finite number; \<open>NaN\<close>
  and the infinities both make the date invalid.
\<close>

definition arg :: "parsed \<Rightarrow> number" where
  "arg x = (case x of PFin v \<Rightarrow> Some v | _ \<Rightarrow> None)"

text \<open>\<open>x || 0\<close> on the result of a \<open>Date\<close> getter: \<open>NaN\<close> and \<open>0\<close> are falsy.\<close>

definition or0 :: "number \<Rightarrow> number" where
  "or0 x = (case x of None \<Rightarrow> Some 0 | Some v \<Rightarrow> (if v = 0 then Some 0 else Some v))"

subsection \<open>Date getters and setters\<close>

definition getDay :: "date \<Rightarrow> number" where
  "getDay d = map_option (\<lambda>t. (t div msPerDay + 4) mod 7) d"

definition getHours :: "date \<Rightarrow> number" where
  "getHours d = map_option (\<lambda>t. (t div msPerHour) mod 24) d"

definition getMinutes :: "date \<Rightarrow> number" where
  "getMinutes d = map_option (\<lambda>t. (t div msPerMinute) mod 60) d"

definition getSeconds :: "date \<Rightarrow> number" where
  "getSeconds d = map_option (\<lambda>t. (t div msPerSecond) mod 60) d"

text \<open>
  \<open>d.setHours(h, m, s, ms)\<close>: \<open>MakeDate(Day(t), MakeTime(h, m, s, ms))\<close>; any \<open>NaN\<close>
  argument, or an invalid \<open>d\<close>, gives an invalid date. Components out of range carry
  over into the neighbouring days.
\<close>

definition setHours :: "date \<Rightarrow> number \<Rightarrow> number \<Rightarrow> number \<Rightarrow> number \<Rightarrow> date" where
  "setHours d h m s ms =
     (case (d, h, m, s, ms) of
        (Some t, Some hv, Some mv, Some sv, Some msv) \<Rightarrow>
          Some ((t div msPerDay) * msPerDay
                + (hv * msPerHour + mv * msPerMinute + sv * msPerSecond + msv))
      | _ \<Rightarrow> None)"

text \<open>
  \<open>d.setDate(d.getDate() + k)\<close>. By ECMAScript this is
  \<open>MakeDate(MakeDay(Year(t), Month(t), DateFromTime(t) + k), TimeWithinDay(t))\<close>, which
  moves the time value by \<open>k\<close> whole days whatever the month is.
\<close>

definition setDate_plus :: "date \<Rightarrow> number \<Rightarrow> date" where
  "setDate_plus d k =
     (case (d, k) of (Some t, Some kv) \<Rightarrow> Some (t + kv * msPerDay) | _ \<Rightarrow> None)"

text \<open>The relational operator \<open>a < b\<close> on two dates: false as soon as one is invalid.\<close>

definition date_less :: "date \<Rightarrow> date \<Rightarrow> bool" where
  "date_less a b = (case (a, b) of (Some x, Some y) \<Rightarrow> x < y | _ \<Rightarrow> False)"

text \<open>\<open>a !== b\<close> on two numbers: \<open>NaN\<close> differs from everything, itself included.\<close>

definition strict_ne :: "number \<Rightarrow> number \<Rightarrow> bool" where
  "strict_ne a b = (case (a, b) of (Some x, Some y) \<Rightarrow> x \<noteq> y | _ \<Rightarrow> True)"

subsection \<open>Time arithmetic helpers of the component\<close>

definition getWeekStart :: "date \<Rightarrow> date" where
  "getWeekStart date0 =
     (let d = date0;
          day = getDay d;
          diff = map_option (\<lambda>v. (v + 6) mod 7) day;
          d1 = setDate_plus d (map_option uminus diff)
      in setHours d1 (Some 0) (Some 0) (Some 0) (Some 0))"

definition toTimeString :: "date \<Rightarrow> string" where
  "toTimeString d =
     (let hh = padStart2 (String_number (getHours d));
          mm = padStart2 (String_number (getMinutes d));
          ss = padStart2 (String_number (getSeconds d))
      in hh @ '':'' @ mm @ '':'' @ ss)"

definition timesOverlap :: "date \<Rightarrow> date \<Rightarrow> date \<Rightarrow> date \<Rightarrow> bool" where
  "timesOverlap startA endA startB endB = (date_less startA endB \<and> date_less startB endA)"

section \<open>Occurrence expander\<close>

text \<open>A row of \<open>section_calendar_view\<close>, as the store returns it.\<close>

record row =
  section_id :: jsval
  pattern_slot_id :: jsval
  time_slot_id :: jsval
  day_code :: jsval
  start_time :: jsval
  end_time :: jsval
  course_code :: jsval
  instructor_name :: jsval
  room_name :: jsval
  grade_level :: jsval

text \<open>
  A calendar event (an occurrence). The fields \<open>id\<close> and \<open>end\<close> of the source are
  \<open>id_ev\<close> and \<open>end_ev\<close> here.
\<close>

record event =
  id_ev :: string
  sectionId :: jsval
  patternSlotId :: jsval
  timeSlotId :: jsval
  title :: jsval
  professor :: jsval
  room :: jsval
  gradeLevel :: string
  start :: date
  end_ev :: date

definition DAY_MAP :: "char \<Rightarrow> int option" where
  "DAY_MAP c =
     (if c = CHR ''M'' then Some 1
      else if c = CHR ''T'' then Some 2
      else if c = CHR ''W'' then Some 3
      else if c = CHR ''R'' then Some 4
      else if c = CHR ''F'' then Some 5
      else None)"

text \<open>
  \<open>row.day_code ? row.day_code.split('') : ['M']\<close>: the code units of the day code. A
  truthy value that is not a string has no \<open>split\<close> method.
\<close>

definition codes_of :: "row \<Rightarrow> error + string" where
  "codes_of r =
     (if truthy (day_code r)
      then (case day_code r of JStr s \<Rightarrow> Inr s | _ \<Rightarrow> Inl TypeError)
      else Inr ''M'')"

text \<open>\<open>v.split(':').map(Number)\<close>: a type error unless \<open>v\<close> is a string.\<close>

definition split_time :: "(string \<Rightarrow> parsed) \<Rightarrow> jsval \<Rightarrow> error + parsed list" where
  "split_time builtin v =
     (case v of
        JStr s \<Rightarrow> Inr (map (Number_js builtin) (split_colon s))
      | _ \<Rightarrow> Inl TypeError)"

text \<open>
  The body of the inner \<open>codes.forEach\<close>: \<open>Inr None\<close> when the day character is not in
  \<open>DAY_MAP\<close> (the early \<open>return\<close>), otherwise the event that is pushed.
\<close>

definition makeEvent ::
  "(string \<Rightarrow> parsed) \<Rightarrow> date \<Rightarrow> row \<Rightarrow> char \<Rightarrow> error + event option" where
  "makeEvent builtin monday r code =
     (case DAY_MAP code of
        None \<Rightarrow> Inr None
      | Some weekday \<Rightarrow>
          (let baseDate = setDate_plus monday (Some (weekday - 1)) in
           case split_time builtin (start_time r) of
             Inl e \<Rightarrow> Inl e
           | Inr st \<Rightarrow>
               (case split_time builtin (end_time r) of
                  Inl e \<Rightarrow> Inl e
                | Inr en \<Rightarrow>
                    Inr (Some \<lparr> id_ev = String_js (section_id r) @ ''-'' @ [code],
                                sectionId = section_id r,
                                patternSlotId = pattern_slot_id r,
                                timeSlotId = time_slot_id r,
                                title = course_code r,
                                professor = instructor_name r,
                                room = room_name r,
                                gradeLevel = String_js (grade_level r),
                                start = setHours baseDate (arg (elem st 0)) (arg (elem st 1))
                                          (arg (or0_parsed (elem st 2))) (Some 0),
                                end_ev = setHours baseDate (arg (elem en 0)) (arg (elem en 1))
                                          (arg (or0_parsed (elem en 2))) (Some 0) \<rparr>))))"

fun codesLoop ::
  "(string \<Rightarrow> parsed) \<Rightarrow> date \<Rightarrow> row \<Rightarrow> string \<Rightarrow> event list \<Rightarrow> error + event list" where
  "codesLoop builtin monday r [] events = Inr events"
| "codesLoop builtin monday r (code # codes) events =
     (case makeEvent builtin monday r code of
        Inl e \<Rightarrow> Inl e
      | Inr None \<Rightarrow> codesLoop builtin monday r codes events
      | Inr (Some ev) \<Rightarrow> codesLoop builtin monday r codes (events @ [ev]))"

fun rowsLoop ::
  "(string \<Rightarrow> parsed) \<Rightarrow> date \<Rightarrow> row list \<Rightarrow> event list \<Rightarrow> error + event list" where
  "rowsLoop builtin monday [] events = Inr events"
| "rowsLoop builtin monday (r # rows) events =
     (case codes_of r of
        Inl e \<Rightarrow> Inl e
      | Inr codes \<Rightarrow>
          (case codesLoop builtin monday r codes events of
             Inl e \<Rightarrow> Inl e
           | Inr events' \<Rightarrow> rowsLoop builtin monday rows events'))"

text \<open>
  \<open>rowsToEvents(rows)\<close>; the clock reading \<open>new Date()\<close> is the parameter \<open>now\<close>, and
  \<open>builtin\<close> is \<open>Number\<close> outside the short digit strings (see \<open>Number_js\<close>).
\<close>

definition rowsToEvents ::
  "(string \<Rightarrow> parsed) \<Rightarrow> date \<Rightarrow> row list \<Rightarrow> error + event list" where
  "rowsToEvents builtin now rows = rowsLoop builtin (getWeekStart now) rows []"

subsection \<open>Notions used to state the properties of the expander\<close>

text \<open>
  The hours, minutes and seconds that \<open>rowsToEvents\<close> hands to \<open>setHours\<close> for a time
  column, when the column is a string and all three are finite.
\<close>

definition readTime :: "(string \<Rightarrow> parsed) \<Rightarrow> jsval \<Rightarrow> (int \<times> int \<times> int) option" where
  "readTime builtin v =
     (case v of
        JStr s \<Rightarrow>
          (let ps = map (Number_js builtin) (split_colon s) in
           case (arg (elem ps 0), arg (elem ps 1), arg (or0_parsed (elem ps 2))) of
             (Some h, Some m, Some sec) \<Rightarrow> Some (h, m, sec)
           | _ \<Rightarrow> None)
      | _ \<Rightarrow> None)"

text \<open>A time column that is read as a time of day, from 00:00:00 to 23:59:59.\<close>

definition timeOfDay :: "(string \<Rightarrow> parsed) \<Rightarrow> jsval \<Rightarrow> bool" where
  "timeOfDay builtin v =
     (case readTime builtin v of
        Some (h, m, sec) \<Rightarrow> 0 \<le> h \<and> h < 24 \<and> 0 \<le> m \<and> m < 60 \<and> 0 \<le> sec \<and> sec < 60
      | None \<Rightarrow> False)"

text \<open>The day characters of a row that \<open>DAY_MAP\<close> knows, in the order of the day code.\<close>

definition recognizedDays :: "row \<Rightarrow> string" where
  "recognizedDays r =
     (case codes_of r of
        Inr codes \<Rightarrow> filter (\<lambda>c. DAY_MAP c \<noteq> None) codes
      | Inl _ \<Rightarrow> [])"

text \<open>Every row paired with each of its recognized day characters, rows in order.\<close>

definition dayPairs :: "row list \<Rightarrow> (row \<times> char) list" where
  "dayPairs rows = concat (map (\<lambda>r. map (Pair r) (recognizedDays r)) rows)"

section \<open>Filter projection (multi-select revision)\<close>

text \<open>
  \<open>filteredEvents\<close> of \<open>part_000\<close>: each filter state is the array of selected values,
  tested with \<open>includes\<close>.
\<close>

definition filteredEvents ::
  "jsval list \<Rightarrow> jsval list \<Rightarrow> string list \<Rightarrow> event list \<Rightarrow> event list" where
  "filteredEvents professorFilter roomFilter gradeFilter events =
     filter (\<lambda>e.
       if length professorFilter > 0 \<and> professor e \<notin> set professorFilter then False
       else if length roomFilter > 0 \<and> room e \<notin> set roomFilter then False
       else if length gradeFilter > 0 \<and> gradeLevel e \<notin> set gradeFilter then False
       else True) events"

section \<open>Conflict detector and reschedule coordinator\<close>

text \<open>
  What the handler does to the outside world, in order: \<open>alert\<close>, \<open>window.confirm\<close>,
  the \<open>time_slot\<close> update sent to the store (new start string, new end string, time slot
  identity) and \<open>console.error\<close>.
\<close>

datatype effect =
    is_Alert: Alert string
  | is_Confirm: Confirm string
  | is_Update: Update string string jsval
  | is_ConsoleError: ConsoleError

text \<open>
  The outside world's answers: what the user replies to a confirmation dialog, and
  whether the store reports an error for an update.
\<close>

record env =
  confirm_reply :: "string \<Rightarrow> bool"
  update_error :: "string \<Rightarrow> string \<Rightarrow> jsval \<Rightarrow> bool"

record outcome =
  events_after :: "event list"
  trace :: "effect list"

definition dq :: string where
  "dq = [char_of (34::nat)]"

definition nl :: string where
  "nl = [char_of (10::nat)]"

definition professorMsg :: "event \<Rightarrow> event \<Rightarrow> string" where
  "professorMsg movedEvent other =
     ''Professor conflict: '' @ String_js (professor movedEvent) @ '' also has '' @ dq
       @ String_js (title other) @ dq @ '' at this time.''"

definition roomMsg :: "event \<Rightarrow> event \<Rightarrow> string" where
  "roomMsg movedEvent other =
     ''Room conflict: '' @ String_js (room movedEvent) @ '' is already used by '' @ dq
       @ String_js (title other) @ dq @ '' at this time.''"

definition gradeMsg :: "event \<Rightarrow> event \<Rightarrow> string" where
  "gradeMsg movedEvent other =
     ''Grade-level conflict: '' @ gradeLevel movedEvent @ '' already has '' @ dq
       @ String_js (title other) @ dq @ '' at this time.''"

text \<open>The body of \<open>events.forEach((other) => ...)\<close>, pushing onto \<open>conflicts\<close>.\<close>

definition checkOther :: "event \<Rightarrow> event \<Rightarrow> string list \<Rightarrow> string list" where
  "checkOther movedEvent other conflicts =
     (if id_ev other = id_ev movedEvent then conflicts
      else if \<not> timesOverlap (start movedEvent) (end_ev movedEvent) (start other) (end_ev other)
      then conflicts
      else
        (let c1 = (if professor movedEvent = professor other
                   then conflicts @ [professorMsg movedEvent other] else conflicts);
             c2 = (if room movedEvent = room other
                   then c1 @ [roomMsg movedEvent other] else c1);
             c3 = (if gradeLevel movedEvent = gradeLevel other
                   then c2 @ [gradeMsg movedEvent other] else c2)
         in c3))"

fun detectLoop :: "event \<Rightarrow> event list \<Rightarrow> string list \<Rightarrow> string list" where
  "detectLoop movedEvent [] conflicts = conflicts"
| "detectLoop movedEvent (other # rest) conflicts =
     detectLoop movedEvent rest (checkOther movedEvent other conflicts)"

text \<open>\<open>conflicts.join('\n')\<close>.\<close>

fun join_nl :: "string list \<Rightarrow> string" where
  "join_nl [] = []"
| "join_nl [x] = x"
| "join_nl (x # y # ys) = x @ nl @ join_nl (y # ys)"

text \<open>The callback of \<open>prev.map\<close> in the commit.\<close>

definition retime :: "event \<Rightarrow> date \<Rightarrow> date \<Rightarrow> event \<Rightarrow> event" where
  "retime ev start' end' e =
     (let sh = getHours start'; sm = getMinutes start'; ss = getSeconds start';
          eh = getHours end'; em = getMinutes end'; es = getSeconds end'
      in if timeSlotId e \<noteq> timeSlotId ev then e
         else e\<lparr> start := setHours (start e) sh sm (or0 ss) (Some 0),
                 end_ev := setHours (end_ev e) eh em (or0 es) (Some 0) \<rparr>)"

definition dayAlert :: string where
  "dayAlert = ''For now you can only change the time, not the day of the week.''"

definition overrideHint :: string where
  "overrideHint = nl @ nl @ ''Click '' @ dq @ ''OK'' @ dq
     @ '' to override and move the class anyway, or '' @ dq @ ''Cancel'' @ dq
     @ '' to keep the original time.''"

definition saveAlert :: string where
  "saveAlert = ''There was a problem saving this change in the database, so the calendar was not updated.''"

definition saveAlert_jsx :: string where
  "saveAlert_jsx = ''There was a problem saving this change. The calendar was not updated.''"

text \<open>
  The part of the handler from \<open>toTimeString(start)\<close> on: the store write, then either
  the failure notice or the update of the occurrence set. \<open>pre\<close> is what was shown to
  the user before, \<open>notice\<close> the wording of the failure alert. The occurrence set that
  \<open>setEvents\<close> maps over is the one the handler was rendered with (no other state
  update is in flight).
\<close>

definition commit ::
  "env \<Rightarrow> string \<Rightarrow> effect list \<Rightarrow> event list \<Rightarrow> event \<Rightarrow> date \<Rightarrow> date \<Rightarrow> outcome" where
  "commit world notice pre events ev start' end' =
     (let newStartStr = toTimeString start';
          newEndStr = toTimeString end';
          upd = Update newStartStr newEndStr (timeSlotId ev)
      in if update_error world newStartStr newEndStr (timeSlotId ev)
         then \<lparr> events_after = events, trace = pre @ [upd, ConsoleError, Alert notice] \<rparr>
         else \<lparr> events_after = map (retime ev start' end') events, trace = pre @ [upd] \<rparr>)"

text \<open>
  \<open>handleEventDrop\<close> of \<open>src/unnamed/part_000\<close>. \<open>movedEvent\<close> also receives the flag
  \<open>allDay\<close>, which nothing reads.
\<close>

definition handleEventDrop ::
  "env \<Rightarrow> event list \<Rightarrow> event \<Rightarrow> date \<Rightarrow> date \<Rightarrow> outcome" where
  "handleEventDrop world events ev start' end' =
     (let originalDay = getDay (start ev); newDay = getDay start'
      in if strict_ne originalDay newDay
         then \<lparr> events_after = events, trace = [Alert dayAlert] \<rparr>
         else
           (let movedEvent = ev\<lparr> start := start', end_ev := end' \<rparr>;
                conflicts = detectLoop movedEvent events []
            in if length conflicts > 0
               then (let message = join_nl conflicts @ overrideHint
                     in if \<not> confirm_reply world message
                        then \<lparr> events_after = events, trace = [Confirm message] \<rparr>
                        else commit world saveAlert [Confirm message] events ev start' end')
               else commit world saveAlert [] events ev start' end'))"

text \<open>\<open>handleEventDrop\<close> of \<open>src/src/ScheduleCalendar.jsx\<close>: a conflict ends the move.\<close>

definition handleEventDrop_jsx ::
  "env \<Rightarrow> event list \<Rightarrow> event \<Rightarrow> date \<Rightarrow> date \<Rightarrow> outcome" where
  "handleEventDrop_jsx world events ev start' end' =
     (let originalDay = getDay (start ev); newDay = getDay start'
      in if strict_ne originalDay newDay
         then \<lparr> events_after = events, trace = [Alert dayAlert] \<rparr>
         else
           (let movedEvent = ev\<lparr> start := start', end_ev := end' \<rparr>;
                conflicts = detectLoop movedEvent events []
            in if length conflicts > 0
               then \<lparr> events_after = events, trace = [Alert (join_nl conflicts)] \<rparr>
               else commit world saveAlert_jsx [] events ev start' end'))"

section \<open>A worked schedule\<close>

text \<open>
  The schedule used to exercise the theorems below: section A (CS101, Prof. Lee,
  Room 101) meets Monday and Wednesday 09:00 to 10:00, section B (CS102, Prof. Kim,
  Room 101) meets Monday 09:30 to 10:30. The clock reads time value 0 (a Thursday),
  so the week's Monday starts at \<open>-259200000\<close>.
\<close>

definition ex_secA :: row where
  "ex_secA = \<lparr> section_id = JNum 1, pattern_slot_id = JNum 10, time_slot_id = JNum 100,
       day_code = JStr ''MW'', start_time = JStr ''09:00:00'', end_time = JStr ''10:00:00'',
       course_code = JStr ''CS101'', instructor_name = JStr ''Lee'',
       room_name = JStr ''Room 101'', grade_level = JNum 1 \<rparr>"

definition ex_secB :: row where
  "ex_secB = \<lparr> section_id = JNum 2, pattern_slot_id = JNum 20, time_slot_id = JNum 200,
       day_code = JStr ''M'', start_time = JStr ''09:30:00'', end_time = JStr ''10:30:00'',
       course_code = JStr ''CS102'', instructor_name = JStr ''Kim'',
       room_name = JStr ''Room 101'', grade_level = JNum 2 \<rparr>"

definition ex_A_Mon :: event where
  "ex_A_Mon = \<lparr> id_ev = ''1-M'', sectionId = JNum 1, patternSlotId = JNum 10,
       timeSlotId = JNum 100, title = JStr ''CS101'', professor = JStr ''Lee'',
       room = JStr ''Room 101'', gradeLevel = ''1'',
       start = Some (- 226800000), end_ev = Some (- 223200000) \<rparr>"

definition ex_A_Wed :: event where
  "ex_A_Wed = \<lparr> id_ev = ''1-W'', sectionId = JNum 1, patternSlotId = JNum 10,
       timeSlotId = JNum 100, title = JStr ''CS101'', professor = JStr ''Lee'',
       room = JStr ''Room 101'', gradeLevel = ''1'',
       start = Some (- 54000000), end_ev = Some (- 50400000) \<rparr>"

definition ex_B_Mon :: event where
  "ex_B_Mon = \<lparr> id_ev = ''2-M'', sectionId = JNum 2, patternSlotId = JNum 20,
       timeSlotId = JNum 200, title = JStr ''CS102'', professor = JStr ''Kim'',
       room = JStr ''Room 101'', gradeLevel = ''2'',
       start = Some (- 225000000), end_ev = Some (- 221400000) \<rparr>"

definition ex_events :: "event list" where
  "ex_events = [ex_A_Mon, ex_A_Wed, ex_B_Mon]"

text \<open>A user who answers every dialog with \<open>accept\<close>, a store that fails iff \<open>fail\<close>.\<close>

definition ex_world :: "bool \<Rightarrow> bool \<Rightarrow> env" where
  "ex_world accept fail = \<lparr> confirm_reply = (\<lambda>_. accept), update_error = (\<lambda>_ _ _. fail) \<rparr>"

text \<open>
  Two more rows: a laboratory of section 1 on Monday afternoon (same section, another
  pattern slot and time slot) with its occurrence, and section N, which meets Monday
  and Tuesday from 00:10 to 02:00, with its two occurrences.
\<close>

definition ex_labA :: row where
  "ex_labA = ex_secA\<lparr> pattern_slot_id := JNum 11, time_slot_id := JNum 101,
       day_code := JStr ''M'', start_time := JStr ''14:00:00'', end_time := JStr ''16:00:00'' \<rparr>"

definition ex_L_Mon :: event where
  "ex_L_Mon = \<lparr> id_ev = ''1-M'', sectionId = JNum 1, patternSlotId = JNum 11,
       timeSlotId = JNum 101, title = JStr ''CS101'', professor = JStr ''Lee'',
       room = JStr ''Room 101'', gradeLevel = ''1'',
       start = Some (- 208800000), end_ev = Some (- 201600000) \<rparr>"

text \<open>
  The times of the worked rows are short digit strings, for which \<open>Number_js\<close> never
  consults the built-in; in the closed examples this function stands in its place.
\<close>

definition ex_Number :: "string \<Rightarrow> parsed" where
  "ex_Number s = PNaN"

definition ex_secN :: row where
  "ex_secN = \<lparr> section_id = JNum 3, pattern_slot_id = JNum 30, time_slot_id = JNum 300,
       day_code = JStr ''MT'', start_time = JStr ''00:10:00'', end_time = JStr ''02:00:00'',
       course_code = JStr ''AST300'', instructor_name = JStr ''Noor'',
       room_name = JStr ''Dome'', grade_level = JNum 3 \<rparr>"

definition ex_N_Mon :: event where
  "ex_N_Mon = \<lparr> id_ev = ''3-M'', sectionId = JNum 3, patternSlotId = JNum 30,
       timeSlotId = JNum 300, title = JStr ''AST300'', professor = JStr ''Noor'',
       room = JStr ''Dome'', gradeLevel = ''3'',
       start = Some (- 258600000), end_ev = Some (- 252000000) \<rparr>"

definition ex_N_Tue :: event where
  "ex_N_Tue = \<lparr> id_ev = ''3-T'', sectionId = JNum 3, patternSlotId = JNum 30,
       timeSlotId = JNum 300, title = JStr ''AST300'', professor = JStr ''Noor'',
       room = JStr ''Dome'', gradeLevel = ''3'',
       start = Some (- 172200000), end_ev = Some (- 165600000) \<rparr>"

section \<open>Properties of the time arithmetic\<close>

lemma date_less_Some [simp]: "date_less (Some x) (Some y) = (x < y)"
  by (simp add: date_less_def)

lemma date_less_None [simp]: "date_less None b = False" "date_less a None = False"
  by (simp_all add: date_less_def split: option.splits)

text \<open>
  Claim C7, as amended. On instants \<open>a, b, c, d\<close> the predicate \<open>timesOverlap\<close> is the test
  \<open>a < d && b > c\<close>; it is symmetric under swapping the two ranges (invalid dates
  included); it is false whenever \<open>b \<le> c\<close> or \<open>d \<le> a\<close>. A zero-duration range at the
  instant \<open>a\<close> overlaps a range exactly when \<open>a\<close> lies strictly inside it, so it never
  overlaps another zero-duration range, but it does overlap a range around it.
\<close>

theorem timesOverlap_half_open:
  "timesOverlap (Some a) (Some b) (Some c) (Some d) = (a < d \<and> b > c)
   \<and> timesOverlap sa ea sb eb = timesOverlap sb eb sa ea
   \<and> ((b \<le> c \<or> d \<le> a) \<longrightarrow> \<not> timesOverlap (Some a) (Some b) (Some c) (Some d))
   \<and> timesOverlap (Some a) (Some a) (Some c) (Some d) = (c < a \<and> a < d)
   \<and> timesOverlap (Some c) (Some d) (Some a) (Some a) = (c < a \<and> a < d)
   \<and> \<not> timesOverlap (Some a) (Some a) (Some c) (Some c)"
  by (auto simp add: timesOverlap_def)

theorem timesOverlap_half_open_witness:
  "((10::int) \<le> 10 \<or> (11::int) \<le> 9) \<and> \<not> timesOverlap (Some 9) (Some 10) (Some 10) (Some 11)"
  using timesOverlap_half_open [of 9 10 10 11 "Some 9" "Some 10" "Some 10" "Some 11"] by simp

text \<open>
  Claim C7 as stated fails: the zero-duration range at instant 5 overlaps the
  range from 0 to 10.
\<close>

theorem zero_duration_overlaps_counterexample:
  "timesOverlap (Some 5) (Some 5) (Some 0) (Some 10)"
  by (simp add: timesOverlap_def)

section \<open>Properties of the conflict detector\<close>

lemma checkOther_acc: "checkOther m other acc = acc @ checkOther m other []"
  by (simp add: checkOther_def Let_def)

lemma detectLoop_concat:
  "detectLoop m evs acc = acc @ concat (map (\<lambda>other. checkOther m other []) evs)"
proof (induction evs arbitrary: acc)
  case Nil
  show ?case by simp
next
  case (Cons other rest)
  have "detectLoop m (other # rest) acc = detectLoop m rest (checkOther m other acc)" by simp
  also have "\<dots> = checkOther m other acc @ concat (map (\<lambda>other. checkOther m other []) rest)"
    by (rule Cons.IH)
  also have "checkOther m other acc = acc @ checkOther m other []" by (rule checkOther_acc)
  finally show ?case by simp
qed


section \<open>Properties of the reschedule coordinator\<close>

lemma trace_commit:
  "trace (commit world notice pre events ev s e) =
     pre @ Update (toTimeString s) (toTimeString e) (timeSlotId ev)
         # (if update_error world (toTimeString s) (toTimeString e) (timeSlotId ev)
            then [ConsoleError, Alert notice] else [])"
  by (simp add: commit_def Let_def)

lemma events_after_commit:
  "events_after (commit world notice pre events ev s e) =
     (if update_error world (toTimeString s) (toTimeString e) (timeSlotId ev)
      then events else map (retime ev s e) events)"
  by (simp add: commit_def Let_def)

lemma handleEventDrop_cases:
  "handleEventDrop world events ev s e =
     (if strict_ne (getDay (start ev)) (getDay s)
      then \<lparr> events_after = events, trace = [Alert dayAlert] \<rparr>
      else if detectLoop (ev\<lparr> start := s, end_ev := e \<rparr>) events [] = []
      then commit world saveAlert [] events ev s e
      else if confirm_reply world
                (join_nl (detectLoop (ev\<lparr> start := s, end_ev := e \<rparr>) events []) @ overrideHint)
      then commit world saveAlert
             [Confirm (join_nl (detectLoop (ev\<lparr> start := s, end_ev := e \<rparr>) events []) @ overrideHint)]
             events ev s e
      else \<lparr> events_after = events,
             trace = [Confirm (join_nl (detectLoop (ev\<lparr> start := s, end_ev := e \<rparr>) events [])
                               @ overrideHint)] \<rparr>)"
  by (simp add: handleEventDrop_def Let_def)

lemma handleEventDrop_jsx_cases:
  "handleEventDrop_jsx world events ev s e =
     (if strict_ne (getDay (start ev)) (getDay s)
      then \<lparr> events_after = events, trace = [Alert dayAlert] \<rparr>
      else if detectLoop (ev\<lparr> start := s, end_ev := e \<rparr>) events [] = []
      then commit world saveAlert_jsx [] events ev s e
      else \<lparr> events_after = events,
             trace = [Alert (join_nl (detectLoop (ev\<lparr> start := s, end_ev := e \<rparr>) events []))] \<rparr>)"
  by (simp add: handleEventDrop_jsx_def Let_def)

subsection \<open>The worked schedule, evaluated\<close>

lemma ex_same_day:
  "\<not> strict_ne (getDay (start ex_A_Mon)) (getDay (Some (- 225000000)))"
  by code_simp

lemma ex_other_day:
  "strict_ne (getDay (start ex_B_Mon)) (getDay (Some (- 52200000)))"
  by code_simp

lemma ex_conflicts:
  "detectLoop (ex_A_Mon\<lparr> start := Some (- 225000000), end_ev := Some (- 221400000) \<rparr>)
     ex_events [] = [roomMsg ex_A_Mon ex_B_Mon]"
  by code_simp

lemma ex_times:
  "toTimeString (Some (- 225000000)) = ''09:30:00''"
  "toTimeString (Some (- 221400000)) = ''10:30:00''"
  by code_simp+

subsection \<open>Validate\<close>

text \<open>
  Claim C4. When the weekday of the proposed start differs from the weekday of the
  occurrence's original start (as \<open>!==\<close> decides it), both revisions of the handler
  return at once: the only effect is the day notice (no confirmation dialog, no store
  update) and the occurrence set is the one it was, whatever the occurrences and the
  proposed times are.
\<close>

theorem day_change_rejected:
  "strict_ne (getDay (start ev)) (getDay start') \<Longrightarrow>
     handleEventDrop world events ev start' end'
       = \<lparr> events_after = events, trace = [Alert dayAlert] \<rparr>
     \<and> handleEventDrop_jsx world events ev start' end'
       = \<lparr> events_after = events, trace = [Alert dayAlert] \<rparr>"
  by (simp add: handleEventDrop_cases handleEventDrop_jsx_cases)

text \<open>
  Section B's Monday occurrence dropped on Wednesday 09:30 to 10:30, where it would
  collide with section A in Room 101: rejected all the same.
\<close>

theorem day_change_rejected_witness:
  "strict_ne (getDay (start ex_B_Mon)) (getDay (Some (- 52200000)))
   \<and> detectLoop (ex_B_Mon\<lparr> start := Some (- 52200000), end_ev := Some (- 48600000) \<rparr>)
        ex_events [] \<noteq> []
   \<and> handleEventDrop (ex_world True False) ex_events ex_B_Mon (Some (- 52200000)) (Some (- 48600000))
       = \<lparr> events_after = ex_events, trace = [Alert dayAlert] \<rparr>
   \<and> handleEventDrop_jsx (ex_world True False) ex_events ex_B_Mon (Some (- 52200000)) (Some (- 48600000))
       = \<lparr> events_after = ex_events, trace = [Alert dayAlert] \<rparr>"
proof -
  have would_conflict:
    "detectLoop (ex_B_Mon\<lparr> start := Some (- 52200000), end_ev := Some (- 48600000) \<rparr>)
       ex_events [] \<noteq> []"
    by code_simp
  from day_change_rejected [OF ex_other_day] ex_other_day would_conflict
  show ?thesis by blast
qed

subsection \<open>Detect\<close>




subsection \<open>Confirm\<close>

text \<open>
  Claim C2. For a move that keeps the weekday: if the conflict list is not empty, the
  handler of \<open>part_000\<close> first shows it in one confirmation dialog; when the user
  declines, that dialog is the only effect and the occurrence set is unchanged; when
  the user accepts, the handler goes on to the commit. If the conflict list is empty
  the handler goes to the commit without any dialog. A store update is issued exactly
  when the list is empty or the user accepted. The handler of \<open>ScheduleCalendar.jsx\<close>
  has no dialog: with a conflict it shows the list and changes nothing, without one it
  commits.
\<close>

theorem confirm_gate:
  assumes "\<not> strict_ne (getDay (start ev)) (getDay start')"
  shows "let conflicts = detectLoop (ev\<lparr> start := start', end_ev := end' \<rparr>) events [];
             message = join_nl conflicts @ overrideHint;
             out = handleEventDrop world events ev start' end';
             out_jsx = handleEventDrop_jsx world events ev start' end'
         in (conflicts \<noteq> [] \<longrightarrow>
               (\<exists>rest. trace out = Confirm message # rest \<and> \<not> list_ex is_Confirm rest)
               \<and> (\<not> confirm_reply world message \<longrightarrow>
                     out = \<lparr> events_after = events, trace = [Confirm message] \<rparr>)
               \<and> (confirm_reply world message \<longrightarrow>
                     out = commit world saveAlert [Confirm message] events ev start' end')
               \<and> out_jsx = \<lparr> events_after = events, trace = [Alert (join_nl conflicts)] \<rparr>)
          \<and> (conflicts = [] \<longrightarrow>
                out = commit world saveAlert [] events ev start' end'
                \<and> out_jsx = commit world saveAlert_jsx [] events ev start' end'
                \<and> \<not> list_ex is_Confirm (trace out)
                \<and> \<not> list_ex is_Confirm (trace out_jsx))
          \<and> (list_ex is_Update (trace out) \<longleftrightarrow> conflicts = [] \<or> confirm_reply world message)
          \<and> (list_ex is_Update (trace out_jsx) \<longleftrightarrow> conflicts = [])"
  using assms
  by (simp add: Let_def handleEventDrop_cases handleEventDrop_jsx_cases trace_commit)

text \<open>
  The drag of section A's Monday occurrence onto 09:30 to 10:30, declined: one dialog
  with the room conflict, nothing else.
\<close>

theorem confirm_gate_witness:
  "\<not> strict_ne (getDay (start ex_A_Mon)) (getDay (Some (- 225000000)))
   \<and> detectLoop (ex_A_Mon\<lparr> start := Some (- 225000000), end_ev := Some (- 221400000) \<rparr>)
        ex_events [] \<noteq> []
   \<and> \<not> confirm_reply (ex_world False False) (join_nl [roomMsg ex_A_Mon ex_B_Mon] @ overrideHint)
   \<and> handleEventDrop (ex_world False False) ex_events ex_A_Mon
        (Some (- 225000000)) (Some (- 221400000))
       = \<lparr> events_after = ex_events,
           trace = [Confirm (join_nl [roomMsg ex_A_Mon ex_B_Mon] @ overrideHint)] \<rparr>"
proof -
  have declined:
    "\<not> confirm_reply (ex_world False False) (join_nl [roomMsg ex_A_Mon ex_B_Mon] @ overrideHint)"
    by (simp add: ex_world_def)
  from confirm_gate [OF ex_same_day, of "Some (- 221400000)" ex_events "ex_world False False"]
  show ?thesis
    using ex_same_day declined by (simp add: Let_def ex_conflicts)
qed

subsection \<open>Commit\<close>

text \<open>
  Claim C6. For a move that keeps the weekday and reaches the store write (no conflict,
  or the user accepted): if the store reports an error, the occurrence set after the
  handler is the occurrence set before it, and the effects are the single update
  request, the console message and the failure notice (after the dialog, if there was
  one). No second update is sent.
\<close>

theorem store_failure_leaves_state:
  assumes "\<not> strict_ne (getDay (start ev)) (getDay start')"
      and "update_error world (toTimeString start') (toTimeString end') (timeSlotId ev)"
  shows "let conflicts = detectLoop (ev\<lparr> start := start', end_ev := end' \<rparr>) events [];
             message = join_nl conflicts @ overrideHint;
             upd = Update (toTimeString start') (toTimeString end') (timeSlotId ev);
             out = handleEventDrop world events ev start' end';
             out_jsx = handleEventDrop_jsx world events ev start' end'
         in events_after out = events
          \<and> events_after out_jsx = events
          \<and> (conflicts = [] \<longrightarrow>
                trace out = [upd, ConsoleError, Alert saveAlert]
                \<and> trace out_jsx = [upd, ConsoleError, Alert saveAlert_jsx])
          \<and> (conflicts \<noteq> [] \<and> confirm_reply world message \<longrightarrow>
                trace out = [Confirm message, upd, ConsoleError, Alert saveAlert])
          \<and> length (filter is_Update (trace out)) \<le> 1
          \<and> length (filter is_Update (trace out_jsx)) \<le> 1"
  using assms
  by (simp add: Let_def handleEventDrop_cases handleEventDrop_jsx_cases trace_commit
        events_after_commit)

text \<open>
  The same drag, accepted, with a store that fails: the occurrence set is untouched.
\<close>

theorem store_failure_leaves_state_witness:
  "\<not> strict_ne (getDay (start ex_A_Mon)) (getDay (Some (- 225000000)))
   \<and> update_error (ex_world True True) (toTimeString (Some (- 225000000)))
        (toTimeString (Some (- 221400000))) (timeSlotId ex_A_Mon)
   \<and> detectLoop (ex_A_Mon\<lparr> start := Some (- 225000000), end_ev := Some (- 221400000) \<rparr>)
        ex_events [] \<noteq> []
   \<and> confirm_reply (ex_world True True) (join_nl [roomMsg ex_A_Mon ex_B_Mon] @ overrideHint)
   \<and> events_after (handleEventDrop (ex_world True True) ex_events ex_A_Mon
        (Some (- 225000000)) (Some (- 221400000))) = ex_events
   \<and> trace (handleEventDrop (ex_world True True) ex_events ex_A_Mon
        (Some (- 225000000)) (Some (- 221400000)))
       = [Confirm (join_nl [roomMsg ex_A_Mon ex_B_Mon] @ overrideHint),
          Update ''09:30:00'' ''10:30:00'' (JNum 100), ConsoleError, Alert saveAlert]"
proof -
  have fails:
    "update_error (ex_world True True) (toTimeString (Some (- 225000000)))
       (toTimeString (Some (- 221400000))) (timeSlotId ex_A_Mon)"
    by (simp add: ex_world_def)
  have accepted:
    "confirm_reply (ex_world True True) (join_nl [roomMsg ex_A_Mon ex_B_Mon] @ overrideHint)"
    by (simp add: ex_world_def)
  have slot: "timeSlotId ex_A_Mon = JNum 100" by (simp add: ex_A_Mon_def)
  from store_failure_leaves_state [OF ex_same_day fails, of ex_events]
  show ?thesis
    using ex_same_day fails accepted by (simp add: Let_def ex_conflicts ex_times slot)
qed

subsection \<open>Time of day carried over by the commit\<close>


lemma hms_div_day:
  fixes D h m s :: int
  assumes "0 \<le> h" "h < 24" "0 \<le> m" "m < 60" "0 \<le> s" "s < 60"
  shows "(D * 86400000 + (h * 3600000 + m * 60000 + s * 1000)) div 86400000 = D"
proof -
  let ?x = "h * 3600000 + m * 60000 + s * 1000"
  have "0 \<le> ?x" "?x < 86400000" using assms by auto
  then have "?x div 86400000 = 0" by simp
  moreover have "(D * 86400000 + ?x) div 86400000 = D + ?x div 86400000"
    by simp
  ultimately show ?thesis by simp
qed

lemma hms_hours:
  fixes D h m s :: int
  assumes "0 \<le> h" "h < 24" "0 \<le> m" "m < 60" "0 \<le> s" "s < 60"
  shows "((D * 86400000 + (h * 3600000 + m * 60000 + s * 1000)) div 3600000) mod 24 = h"
proof -
  let ?x = "m * 60000 + s * 1000"
  have "0 \<le> ?x" "?x < 3600000" using assms by auto
  then have x: "?x div 3600000 = 0" by simp
  have "D * 86400000 + (h * 3600000 + ?x) = (D * 24 + h) * 3600000 + ?x" by simp
  then have "(D * 86400000 + (h * 3600000 + ?x)) div 3600000 = (D * 24 + h) + ?x div 3600000"
    by simp
  then have "(D * 86400000 + (h * 3600000 + m * 60000 + s * 1000)) div 3600000 = D * 24 + h"
    using x by (simp add: add.assoc)
  moreover have "(D * 24 + h) mod 24 = h mod 24" by (rule mod_mult_self3)
  moreover have "h mod 24 = h" using assms by (simp add: mod_pos_pos_trivial)
  ultimately show ?thesis by simp
qed

lemma hms_minutes:
  fixes D h m s :: int
  assumes "0 \<le> h" "h < 24" "0 \<le> m" "m < 60" "0 \<le> s" "s < 60"
  shows "((D * 86400000 + (h * 3600000 + m * 60000 + s * 1000)) div 60000) mod 60 = m"
proof -
  let ?x = "s * 1000"
  have "0 \<le> ?x" "?x < 60000" using assms by auto
  then have x: "?x div 60000 = 0" by simp
  have "D * 86400000 + (h * 3600000 + m * 60000 + ?x) = (D * 1440 + h * 60 + m) * 60000 + ?x"
    by simp
  then have "(D * 86400000 + (h * 3600000 + m * 60000 + ?x)) div 60000
             = (D * 1440 + h * 60 + m) + ?x div 60000"
    by simp
  then have "(D * 86400000 + (h * 3600000 + m * 60000 + s * 1000)) div 60000
             = (D * 24 + h) * 60 + m"
    using x by simp
  moreover have "((D * 24 + h) * 60 + m) mod 60 = m mod 60" by (rule mod_mult_self3)
  moreover have "m mod 60 = m" using assms by (simp add: mod_pos_pos_trivial)
  ultimately show ?thesis by simp
qed

lemma hms_seconds:
  fixes D h m s :: int
  assumes "0 \<le> h" "h < 24" "0 \<le> m" "m < 60" "0 \<le> s" "s < 60"
  shows "((D * 86400000 + (h * 3600000 + m * 60000 + s * 1000)) div 1000) mod 60 = s"
proof -
  have e: "D * 86400000 + (h * 3600000 + m * 60000 + s * 1000)
        = ((D * 1440 + h * 60 + m) * 60 + s) * 1000"
    by (simp add: algebra_simps)
  have d: "(((D * 1440 + h * 60 + m) * 60 + s) * 1000) div 1000 = (D * 1440 + h * 60 + m) * 60 + s"
    by (rule nonzero_mult_div_cancel_right) simp
  have "((D * 1440 + h * 60 + m) * 60 + s) mod 60 = s mod 60" by (rule mod_mult_self3)
  moreover have "s mod 60 = s" using assms by (simp add: mod_pos_pos_trivial)
  ultimately show ?thesis by (simp only: e d)
qed

lemma hms_bounds:
  fixes h m s :: int
  assumes "0 \<le> h" "h < 24" "0 \<le> m" "m < 60" "0 \<le> s" "s < 60"
  shows "0 \<le> h * 3600000 + m * 60000 + s * 1000" "h * 3600000 + m * 60000 + s * 1000 < 86400000"
  using assms by auto


lemma or0_Some [simp]: "or0 (Some v) = Some v"
  by (simp add: or0_def)

lemma or0_None [simp]: "or0 None = Some 0"
  by (simp add: or0_def)

lemma setHours_getters:
  "setHours (Some t) (getHours (Some s)) (getMinutes (Some s)) (or0 (getSeconds (Some s))) (Some 0)
     = Some (t div 86400000 * 86400000
             + ((s div 3600000) mod 24 * 3600000 + (s div 60000) mod 60 * 60000
                + (s div 1000) mod 60 * 1000))"
  by (simp add: setHours_def getHours_def getMinutes_def getSeconds_def
        msPerDay_def msPerHour_def msPerMinute_def msPerSecond_def)

lemma retimed_instant:
  fixes t s :: int
  defines "t' \<equiv> t div 86400000 * 86400000
             + ((s div 3600000) mod 24 * 3600000 + (s div 60000) mod 60 * 60000
                + (s div 1000) mod 60 * 1000)"
  shows "t' div msPerDay = t div msPerDay"
    and "getHours (Some t') = getHours (Some s)"
    and "getMinutes (Some t') = getMinutes (Some s)"
    and "getSeconds (Some t') = getSeconds (Some s)"
proof -
  let ?h = "(s div 3600000) mod 24" and ?m = "(s div 60000) mod 60" and ?c = "(s div 1000) mod 60"
  have b: "0 \<le> ?h" "?h < 24" "0 \<le> ?m" "?m < 60" "0 \<le> ?c" "?c < 60" by simp_all
  show "t' div msPerDay = t div msPerDay"
    unfolding t'_def msPerDay_def by (rule hms_div_day [OF b])
  show "getHours (Some t') = getHours (Some s)"
    unfolding t'_def getHours_def msPerHour_def by (simp only: option.map hms_hours [OF b])
  show "getMinutes (Some t') = getMinutes (Some s)"
    unfolding t'_def getMinutes_def msPerMinute_def by (simp only: option.map hms_minutes [OF b])
  show "getSeconds (Some t') = getSeconds (Some s)"
    unfolding t'_def getSeconds_def msPerSecond_def by (simp only: option.map hms_seconds [OF b])
qed

lemma setHours_keeps_date:
  "\<exists>t'. setHours (Some t) (getHours (Some s)) (getMinutes (Some s)) (or0 (getSeconds (Some s))) (Some 0)
          = Some t'
        \<and> t' div msPerDay = t div msPerDay
        \<and> getHours (Some t') = getHours (Some s)
        \<and> getMinutes (Some t') = getMinutes (Some s)
        \<and> getSeconds (Some t') = getSeconds (Some s)"
  unfolding setHours_getters
  using retimed_instant [of t s] by blast

lemma retime_other: "timeSlotId old \<noteq> timeSlotId ev \<Longrightarrow> retime ev s e old = old"
  by (simp add: retime_def Let_def)

lemma retime_same:
  "timeSlotId old = timeSlotId ev \<Longrightarrow>
   retime ev s e old =
     old\<lparr> start := setHours (start old) (getHours s) (getMinutes s) (or0 (getSeconds s)) (Some 0),
          end_ev := setHours (end_ev old) (getHours e) (getMinutes e) (or0 (getSeconds e)) (Some 0) \<rparr>"
  by (simp add: retime_def Let_def)

lemma retime_spec:
  "let new = retime ev (Some s) (Some e) old in
     (timeSlotId old \<noteq> timeSlotId ev \<longrightarrow> new = old)
     \<and> (timeSlotId old = timeSlotId ev \<longrightarrow>
          new = old\<lparr> start := start new, end_ev := end_ev new \<rparr>
          \<and> (\<forall>t. start old = Some t \<longrightarrow>
                (\<exists>t'. start new = Some t' \<and> t' div msPerDay = t div msPerDay
                      \<and> getHours (Some t') = getHours (Some s)
                      \<and> getMinutes (Some t') = getMinutes (Some s)
                      \<and> getSeconds (Some t') = getSeconds (Some s)))
          \<and> (\<forall>t. end_ev old = Some t \<longrightarrow>
                (\<exists>t'. end_ev new = Some t' \<and> t' div msPerDay = t div msPerDay
                      \<and> getHours (Some t') = getHours (Some e)
                      \<and> getMinutes (Some t') = getMinutes (Some e)
                      \<and> getSeconds (Some t') = getSeconds (Some e))))"
proof (cases "timeSlotId old = timeSlotId ev")
  case False
  then show ?thesis by (simp add: retime_other)
next
  case True
  show ?thesis
    unfolding Let_def retime_same [OF True]
    using True setHours_keeps_date by simp
qed


lemma ex_accepted:
  "events_after (handleEventDrop (ex_world True False) ex_events ex_A_Mon
      (Some (- 225000000)) (Some (- 221400000)))
   = [ex_A_Mon\<lparr> start := Some (- 225000000), end_ev := Some (- 221400000) \<rparr>,
      ex_A_Wed\<lparr> start := Some (- 52200000), end_ev := Some (- 48600000) \<rparr>,
      ex_B_Mon]"
  by code_simp

text \<open>
  Claim C1. For a move that keeps the weekday, reaches the store write (no conflict, or
  the user accepted) and whose store write succeeds, the occurrence set afterwards has
  the same occurrences in the same positions, where an occurrence with another time
  slot identity is unchanged, and an occurrence with the moved occurrence's time slot
  identity differs at most in \<open>start\<close> and \<open>end\<close>: its start (if valid) stays on its
  calendar day and has the hours, minutes and seconds of the proposed start, and
  likewise its end with the proposed end. The handler of \<open>ScheduleCalendar.jsx\<close>
  yields the same occurrence set when there is no conflict.
\<close>

theorem commit_updates_shared_time_slot:
  assumes "\<not> strict_ne (getDay (start ev)) (getDay (Some s))"
      and "detectLoop (ev\<lparr> start := Some s, end_ev := Some e \<rparr>) events [] = []
           \<or> confirm_reply world
                (join_nl (detectLoop (ev\<lparr> start := Some s, end_ev := Some e \<rparr>) events [])
                 @ overrideHint)"
      and "\<not> update_error world (toTimeString (Some s)) (toTimeString (Some e)) (timeSlotId ev)"
  shows "let after = events_after (handleEventDrop world events ev (Some s) (Some e)) in
           length after = length events
           \<and> (\<forall>i < length events.
                let old = events ! i; new = after ! i in
                  (timeSlotId old \<noteq> timeSlotId ev \<longrightarrow> new = old)
                  \<and> (timeSlotId old = timeSlotId ev \<longrightarrow>
                       new = old\<lparr> start := start new, end_ev := end_ev new \<rparr>
                       \<and> (\<forall>t. start old = Some t \<longrightarrow>
                             (\<exists>t'. start new = Some t' \<and> t' div msPerDay = t div msPerDay
                                   \<and> getHours (Some t') = getHours (Some s)
                                   \<and> getMinutes (Some t') = getMinutes (Some s)
                                   \<and> getSeconds (Some t') = getSeconds (Some s)))
                       \<and> (\<forall>t. end_ev old = Some t \<longrightarrow>
                             (\<exists>t'. end_ev new = Some t' \<and> t' div msPerDay = t div msPerDay
                                   \<and> getHours (Some t') = getHours (Some e)
                                   \<and> getMinutes (Some t') = getMinutes (Some e)
                                   \<and> getSeconds (Some t') = getSeconds (Some e)))))
           \<and> (detectLoop (ev\<lparr> start := Some s, end_ev := Some e \<rparr>) events [] = [] \<longrightarrow>
                events_after (handleEventDrop_jsx world events ev (Some s) (Some e)) = after)"
proof -
  have after: "events_after (handleEventDrop world events ev (Some s) (Some e))
               = map (retime ev (Some s) (Some e)) events"
    using assms by (auto simp add: handleEventDrop_cases events_after_commit)
  have jsx: "detectLoop (ev\<lparr> start := Some s, end_ev := Some e \<rparr>) events [] = [] \<Longrightarrow>
             events_after (handleEventDrop_jsx world events ev (Some s) (Some e))
               = map (retime ev (Some s) (Some e)) events"
    using assms by (simp add: handleEventDrop_jsx_cases events_after_commit)
  have each: "\<And>i. i < length events \<Longrightarrow>
      (let old = events ! i; new = map (retime ev (Some s) (Some e)) events ! i in
                  (timeSlotId old \<noteq> timeSlotId ev \<longrightarrow> new = old)
                  \<and> (timeSlotId old = timeSlotId ev \<longrightarrow>
                       new = old\<lparr> start := start new, end_ev := end_ev new \<rparr>
                       \<and> (\<forall>t. start old = Some t \<longrightarrow>
                             (\<exists>t'. start new = Some t' \<and> t' div msPerDay = t div msPerDay
                                   \<and> getHours (Some t') = getHours (Some s)
                                   \<and> getMinutes (Some t') = getMinutes (Some s)
                                   \<and> getSeconds (Some t') = getSeconds (Some s)))
                       \<and> (\<forall>t. end_ev old = Some t \<longrightarrow>
                             (\<exists>t'. end_ev new = Some t' \<and> t' div msPerDay = t div msPerDay
                                   \<and> getHours (Some t') = getHours (Some e)
                                   \<and> getMinutes (Some t') = getMinutes (Some e)
                                   \<and> getSeconds (Some t') = getSeconds (Some e)))))"
  proof -
    fix i assume i: "i < length events"
    have nth: "map (retime ev (Some s) (Some e)) events ! i = retime ev (Some s) (Some e) (events ! i)"
      using i by simp
    show "?thesis i"
      unfolding nth using retime_spec [of ev s e "events ! i"] by (simp only: Let_def)
  qed
  show ?thesis
    unfolding after Let_def using each jsx by (simp add: Let_def)
qed

text \<open>
  The drag of section A's Monday occurrence onto 09:30 to 10:30, accepted and stored:
  both occurrences of section A now run 09:30 to 10:30 on their own days, section B
  is as it was.
\<close>

theorem commit_updates_shared_time_slot_witness:
  "\<not> strict_ne (getDay (start ex_A_Mon)) (getDay (Some (- 225000000)))
   \<and> (detectLoop (ex_A_Mon\<lparr> start := Some (- 225000000), end_ev := Some (- 221400000) \<rparr>)
         ex_events [] = []
       \<or> confirm_reply (ex_world True False)
            (join_nl (detectLoop (ex_A_Mon\<lparr> start := Some (- 225000000),
                                           end_ev := Some (- 221400000) \<rparr>) ex_events [])
             @ overrideHint))
   \<and> \<not> update_error (ex_world True False) (toTimeString (Some (- 225000000)))
          (toTimeString (Some (- 221400000))) (timeSlotId ex_A_Mon)
   \<and> length (events_after (handleEventDrop (ex_world True False) ex_events ex_A_Mon
                (Some (- 225000000)) (Some (- 221400000)))) = length ex_events
   \<and> events_after (handleEventDrop (ex_world True False) ex_events ex_A_Mon
        (Some (- 225000000)) (Some (- 221400000)))
       = [ex_A_Mon\<lparr> start := Some (- 225000000), end_ev := Some (- 221400000) \<rparr>,
          ex_A_Wed\<lparr> start := Some (- 52200000), end_ev := Some (- 48600000) \<rparr>,
          ex_B_Mon]"
proof -
  have go: "detectLoop (ex_A_Mon\<lparr> start := Some (- 225000000), end_ev := Some (- 221400000) \<rparr>)
              ex_events [] = []
            \<or> confirm_reply (ex_world True False)
                 (join_nl (detectLoop (ex_A_Mon\<lparr> start := Some (- 225000000),
                                                end_ev := Some (- 221400000) \<rparr>) ex_events [])
                  @ overrideHint)"
    by (simp add: ex_world_def)
  have stored: "\<not> update_error (ex_world True False) (toTimeString (Some (- 225000000)))
                    (toTimeString (Some (- 221400000))) (timeSlotId ex_A_Mon)"
    by (simp add: ex_world_def)
  from commit_updates_shared_time_slot [OF ex_same_day go stored]
  have "length (events_after (handleEventDrop (ex_world True False) ex_events ex_A_Mon
                  (Some (- 225000000)) (Some (- 221400000)))) = length ex_events"
    by (simp only: Let_def)
  then show ?thesis using ex_same_day go stored ex_accepted by blast
qed

section \<open>Properties of the filter projection\<close>

lemma filteredEvents_set:
  "filteredEvents pf rf gf events =
     filter (\<lambda>e. (pf = [] \<or> professor e \<in> set pf)
                \<and> (rf = [] \<or> room e \<in> set rf)
                \<and> (gf = [] \<or> gradeLevel e \<in> set gf)) events"
  unfolding filteredEvents_def
  by (rule filter_cong) auto

text \<open>
  Claim C9. An occurrence is kept exactly when, for each of the three facets, the
  selection is empty or contains the occurrence's value; with three empty selections
  every occurrence is kept. The result depends only on the set of selected values of
  each facet, not on the order in which they were selected, and a reordering of the
  occurrence set gives the same occurrences.
\<close>

theorem filter_projection:
  "filteredEvents pf rf gf events =
     filter (\<lambda>e. (pf = [] \<or> professor e \<in> set pf)
                \<and> (rf = [] \<or> room e \<in> set rf)
                \<and> (gf = [] \<or> gradeLevel e \<in> set gf)) events
   \<and> filteredEvents [] [] [] events = events
   \<and> (set pf' = set pf \<and> set rf' = set rf \<and> set gf' = set gf \<longrightarrow>
        filteredEvents pf' rf' gf' events = filteredEvents pf rf gf events)
   \<and> (mset events' = mset events \<longrightarrow>
        mset (filteredEvents pf rf gf events') = mset (filteredEvents pf rf gf events))"
proof (intro conjI impI)
  show "filteredEvents pf rf gf events =
     filter (\<lambda>e. (pf = [] \<or> professor e \<in> set pf)
                \<and> (rf = [] \<or> room e \<in> set rf)
                \<and> (gf = [] \<or> gradeLevel e \<in> set gf)) events"
    by (rule filteredEvents_set)
  show "filteredEvents [] [] [] events = events"
    by (simp add: filteredEvents_set)
next
  assume same: "set pf' = set pf \<and> set rf' = set rf \<and> set gf' = set gf"
  then have "pf' = [] \<longleftrightarrow> pf = []" "rf' = [] \<longleftrightarrow> rf = []" "gf' = [] \<longleftrightarrow> gf = []"
    by (metis set_empty)+
  with same show "filteredEvents pf' rf' gf' events = filteredEvents pf rf gf events"
    by (simp add: filteredEvents_set)
next
  assume "mset events' = mset events"
  then show "mset (filteredEvents pf rf gf events') = mset (filteredEvents pf rf gf events)"
    by (simp add: filteredEvents_set)
qed

text \<open>
  Selecting Prof. Lee keeps section A's two occurrences, in whatever order the values
  or the occurrences come.
\<close>

theorem filter_projection_witness:
  "(set [JStr ''Kim'', JStr ''Lee''] = set [JStr ''Lee'', JStr ''Kim'']
      \<and> set ([] :: jsval list) = set [] \<and> set ([] :: string list) = set [])
   \<and> mset (rev ex_events) = mset ex_events
   \<and> filteredEvents [JStr ''Lee''] [] [] ex_events = [ex_A_Mon, ex_A_Wed]
   \<and> filteredEvents [JStr ''Kim'', JStr ''Lee''] [] [] ex_events
       = filteredEvents [JStr ''Lee'', JStr ''Kim''] [] [] ex_events
   \<and> mset (filteredEvents [JStr ''Lee''] [] [] (rev ex_events))
       = mset (filteredEvents [JStr ''Lee''] [] [] ex_events)"
proof -
  have order: "set [JStr ''Kim'', JStr ''Lee''] = set [JStr ''Lee'', JStr ''Kim'']
      \<and> set ([] :: jsval list) = set [] \<and> set ([] :: string list) = set []"
    by auto
  have perm: "mset (rev ex_events) = mset ex_events" by simp
  have lee: "filteredEvents [JStr ''Lee''] [] [] ex_events = [ex_A_Mon, ex_A_Wed]"
    by code_simp
  note sel = filter_projection
      [of "[JStr ''Lee'', JStr ''Kim'']" "[]" "[]" ex_events "[JStr ''Kim'', JStr ''Lee'']" "[]" "[]",
       THEN conjunct2, THEN conjunct2, THEN conjunct1, THEN mp, OF order]
  note ins = filter_projection
      [of "[JStr ''Lee'']" "[]" "[]" ex_events "[]" "[]" "[]" "rev ex_events",
       THEN conjunct2, THEN conjunct2, THEN conjunct2, THEN mp, OF perm]
  show ?thesis using order perm lee sel ins by blast
qed


section \<open>Properties of the occurrence expander\<close>

lemma getWeekStart_Some:
  "getWeekStart (Some n)
     = Some ((n div msPerDay - ((n div msPerDay + 4) mod 7 + 6) mod 7) * msPerDay)"
proof -
  have "(n - ((n div 86400000 + 4) mod 7 + 6) mod 7 * 86400000) div 86400000
        = n div 86400000 - ((n div 86400000 + 4) mod 7 + 6) mod 7"
    by (simp add: div_mult_self4 [symmetric] del: div_mult_self4 div_mult_self3 div_mult_self2 div_mult_self1)
  then show ?thesis
    by (simp add: getWeekStart_def getDay_def setDate_plus_def setHours_def Let_def msPerDay_def)
qed

lemma monday_is_monday:
  fixes D :: int
  defines "M \<equiv> D - ((D + 4) mod 7 + 6) mod 7"
  shows "(M + 4) mod 7 = 1" and "M \<le> D" and "D < M + 7"
  unfolding M_def by presburger+

lemma DAY_MAP_range: "DAY_MAP c = Some w \<Longrightarrow> 1 \<le> w \<and> w \<le> 5"
  by (auto simp add: DAY_MAP_def split: if_splits)

lemma setHours_on_weekday:
  "setHours (setDate_plus (Some (M * msPerDay)) (Some (w - 1))) (Some h) (Some m) (Some s) (Some 0)
   = Some ((M + (w - 1)) * msPerDay + (h * msPerHour + m * msPerMinute + s * msPerSecond))"
proof -
  have "(M * 86400000 + (w - 1) * 86400000) div 86400000 = M + (w - 1)"
    by (simp add: distrib_right [symmetric] del: distrib_right)
  then show ?thesis
    by (simp add: setHours_def setDate_plus_def msPerDay_def)
qed

lemma weekday_instant:
  fixes M w h m s :: int
  assumes mon: "(M + 4) mod 7 = 1" and w: "1 \<le> w" "w \<le> 5"
      and b: "0 \<le> h" "h < 24" "0 \<le> m" "m < 60" "0 \<le> s" "s < 60"
  defines "t \<equiv> (M + (w - 1)) * msPerDay + (h * msPerHour + m * msPerMinute + s * msPerSecond)"
  shows "t div msPerDay = M + (w - 1)"
    and "getDay (Some t) = Some w"
    and "getHours (Some t) = Some h"
    and "getMinutes (Some t) = Some m"
    and "getSeconds (Some t) = Some s"
proof -
  show d: "t div msPerDay = M + (w - 1)"
    unfolding t_def msPerDay_def msPerHour_def msPerMinute_def msPerSecond_def
    by (rule hms_div_day [OF b])
  have "M + (w - 1) + 4 = (M + 4) + (w - 1)" by simp
  then have "(M + (w - 1) + 4) mod 7 = ((M + 4) + (w - 1)) mod 7" by (simp only:)
  also have "\<dots> = ((M + 4) mod 7 + (w - 1)) mod 7"
    by (rule mod_add_left_eq [symmetric])
  also have "\<dots> = w mod 7" by (simp add: mon)
  also have "\<dots> = w" using w by (simp add: mod_pos_pos_trivial)
  finally show "getDay (Some t) = Some w"
    by (simp add: getDay_def d)
  show "getHours (Some t) = Some h"
    unfolding t_def getHours_def msPerDay_def msPerHour_def msPerMinute_def msPerSecond_def
    by (simp only: option.map hms_hours [OF b])
  show "getMinutes (Some t) = Some m"
    unfolding t_def getMinutes_def msPerDay_def msPerHour_def msPerMinute_def msPerSecond_def
    by (simp only: option.map hms_minutes [OF b])
  show "getSeconds (Some t) = Some s"
    unfolding t_def getSeconds_def msPerDay_def msPerHour_def msPerMinute_def msPerSecond_def
    by (simp only: option.map hms_seconds [OF b])
qed

lemma codes_of_falsy: "\<not> truthy (day_code r) \<Longrightarrow> codes_of r = Inr ''M''"
  by (simp add: codes_of_def)

lemma recognizedDays_falsy: "\<not> truthy (day_code r) \<Longrightarrow> recognizedDays r = ''M''"
  by (simp add: recognizedDays_def codes_of_falsy DAY_MAP_def)

lemma recognizedDays_known: "c \<in> set (recognizedDays r) \<Longrightarrow> DAY_MAP c \<noteq> None"
  by (auto simp add: recognizedDays_def split: sum.splits)

lemma dayPairs_Cons:
  "dayPairs (r # rows) = map (Pair r) (recognizedDays r) @ dayPairs rows"
  by (simp add: dayPairs_def)

lemma dayPairs_mem: "p \<in> set (dayPairs rows) \<Longrightarrow> fst p \<in> set rows \<and> DAY_MAP (snd p) \<noteq> None"
  by (auto simp add: dayPairs_def dest: recognizedDays_known)

lemma length_dayPairs:
  "length (dayPairs rows) = sum_list (map (\<lambda>r. length (recognizedDays r)) rows)"
  by (induction rows) (simp_all add: dayPairs_Cons, simp add: dayPairs_def)

lemma readTime_args:
  assumes "readTime builtin (JStr s) = Some (h, m, sec)"
  shows "arg (elem (map (Number_js builtin) (split_colon s)) 0) = Some h"
    and "arg (elem (map (Number_js builtin) (split_colon s)) 1) = Some m"
    and "arg (or0_parsed (elem (map (Number_js builtin) (split_colon s)) 2)) = Some sec"
    and "arg (elem (map (Number_js builtin) (split_colon s)) (Suc 0)) = Some m"
  using assms by (auto simp add: readTime_def Let_def split: option.splits)

lemma readTime_missing_seconds:
  assumes "readTime builtin (JStr s) = Some (h, m, sec)" and "length (split_colon s) \<le> 2"
  shows "sec = 0"
  using readTime_args(3) [OF assms(1)] assms(2)
  by (simp add: elem_def or0_parsed_def arg_def)

lemma readTime_string: "readTime builtin v = Some t \<Longrightarrow> \<exists>s. v = JStr s"
  by (cases v) (simp_all add: readTime_def)

lemma makeEvent_Some:
  assumes "makeEvent builtin monday r c = Inr (Some ev)"
  shows "\<exists>w. DAY_MAP c = Some w
           \<and> (\<exists>h m s. start ev = setHours (setDate_plus monday (Some (w - 1))) h m s (Some 0))
           \<and> (\<exists>h m s. end_ev ev = setHours (setDate_plus monday (Some (w - 1))) h m s (Some 0))"
    and "id_ev ev = String_js (section_id r) @ ''-'' @ [c]"
    and "sectionId ev = section_id r"
    and "patternSlotId ev = pattern_slot_id r"
    and "timeSlotId ev = time_slot_id r"
    and "title ev = course_code r"
    and "professor ev = instructor_name r"
    and "room ev = room_name r"
    and "gradeLevel ev = String_js (grade_level r)"
proof -
  from assms obtain w st en where w: "DAY_MAP c = Some w"
    and ev: "ev = \<lparr> id_ev = String_js (section_id r) @ ''-'' @ [c],
                    sectionId = section_id r,
                    patternSlotId = pattern_slot_id r,
                    timeSlotId = time_slot_id r,
                    title = course_code r,
                    professor = instructor_name r,
                    room = room_name r,
                    gradeLevel = String_js (grade_level r),
                    start = setHours (setDate_plus monday (Some (w - 1)))
                              (arg (elem st 0)) (arg (elem st 1))
                              (arg (or0_parsed (elem st 2))) (Some 0),
                    end_ev = setHours (setDate_plus monday (Some (w - 1)))
                              (arg (elem en 0)) (arg (elem en 1))
                              (arg (or0_parsed (elem en 2))) (Some 0) \<rparr>"
    by (auto simp add: makeEvent_def Let_def split: option.splits sum.splits)
  have "start ev = setHours (setDate_plus monday (Some (w - 1)))
                     (arg (elem st 0)) (arg (elem st 1)) (arg (or0_parsed (elem st 2))) (Some 0)"
    and "end_ev ev = setHours (setDate_plus monday (Some (w - 1)))
                     (arg (elem en 0)) (arg (elem en 1)) (arg (or0_parsed (elem en 2))) (Some 0)"
    by (simp_all add: ev)
  with w show "\<exists>w. DAY_MAP c = Some w
           \<and> (\<exists>h m s. start ev = setHours (setDate_plus monday (Some (w - 1))) h m s (Some 0))
           \<and> (\<exists>h m s. end_ev ev = setHours (setDate_plus monday (Some (w - 1))) h m s (Some 0))"
    by blast
  show "id_ev ev = String_js (section_id r) @ ''-'' @ [c]"
    and "sectionId ev = section_id r"
    and "patternSlotId ev = pattern_slot_id r"
    and "timeSlotId ev = time_slot_id r"
    and "title ev = course_code r"
    and "professor ev = instructor_name r"
    and "room ev = room_name r"
    and "gradeLevel ev = String_js (grade_level r)"
    by (simp_all add: ev)
qed

lemma makeEvent_None: "makeEvent builtin monday r c = Inr None \<Longrightarrow> DAY_MAP c = None"
  by (auto simp add: makeEvent_def Let_def split: option.splits sum.splits)

lemma makeEvent_start:
  assumes mk: "makeEvent builtin (Some (M * msPerDay)) r c = Inr (Some ev)"
      and w: "DAY_MAP c = Some w"
      and rt: "readTime builtin (start_time r) = Some (h, m, sec)"
  shows "start ev = Some ((M + (w - 1)) * msPerDay
                          + (h * msPerHour + m * msPerMinute + sec * msPerSecond))"
proof -
  from readTime_string [OF rt] obtain s where s: "start_time r = JStr s" by blast
  note a = readTime_args [OF rt [unfolded s]]
  from mk have "start ev = setHours (setDate_plus (Some (M * msPerDay)) (Some (w - 1)))
                  (Some h) (Some m) (Some sec) (Some 0)"
    by (auto simp add: makeEvent_def Let_def w s split_time_def a split: sum.splits jsval.splits)
  then show ?thesis by (simp only: setHours_on_weekday)
qed

lemma makeEvent_end:
  assumes mk: "makeEvent builtin (Some (M * msPerDay)) r c = Inr (Some ev)"
      and w: "DAY_MAP c = Some w"
      and rt: "readTime builtin (end_time r) = Some (h, m, sec)"
  shows "end_ev ev = Some ((M + (w - 1)) * msPerDay
                          + (h * msPerHour + m * msPerMinute + sec * msPerSecond))"
proof -
  from readTime_string [OF rt] obtain s where s: "end_time r = JStr s" by blast
  note a = readTime_args [OF rt [unfolded s]]
  from mk have "end_ev ev = setHours (setDate_plus (Some (M * msPerDay)) (Some (w - 1)))
                  (Some h) (Some m) (Some sec) (Some 0)"
    by (auto simp add: makeEvent_def Let_def w s split_time_def a split: sum.splits jsval.splits)
  then show ?thesis by (simp only: setHours_on_weekday)
qed

lemma makeEvent_strings_total:
  assumes "start_time r = JStr st" and "end_time r = JStr en"
  shows "\<exists>res. makeEvent builtin monday r c = Inr res"
  using assms by (simp add: makeEvent_def split_time_def Let_def split: option.splits)

lemma codesLoop_succeeds:
  "(\<And>c. c \<in> set cs \<Longrightarrow> \<exists>res. makeEvent builtin m r c = Inr res) \<Longrightarrow>
   \<exists>evs. codesLoop builtin m r cs acc = Inr evs"
proof (induction cs arbitrary: acc)
  case Nil
  show ?case by simp
next
  case (Cons c cs)
  from Cons.prems obtain res where res: "makeEvent builtin m r c = Inr res" by auto
  have rest: "\<And>acc'. \<exists>evs. codesLoop builtin m r cs acc' = Inr evs"
    using Cons.IH Cons.prems by simp
  show ?case by (cases res) (simp_all add: res rest)
qed

lemma rowsLoop_succeeds:
  assumes "\<forall>r\<in>set rows. (\<exists>codes. codes_of r = Inr codes)
             \<and> (\<exists>s. start_time r = JStr s) \<and> (\<exists>e. end_time r = JStr e)"
  shows "\<exists>evs. rowsLoop builtin m rows acc = Inr evs"
  using assms
proof (induction rows arbitrary: acc)
  case Nil
  show ?case by simp
next
  case (Cons r rows)
  from Cons.prems obtain codes s e where r: "codes_of r = Inr codes"
    "start_time r = JStr s" "end_time r = JStr e"
    by auto
  from codesLoop_succeeds [of codes builtin m r acc] makeEvent_strings_total [OF r(2,3)]
  obtain mid where mid: "codesLoop builtin m r codes acc = Inr mid" by blast
  from Cons.IH [of mid] Cons.prems obtain evs where "rowsLoop builtin m rows mid = Inr evs"
    by auto
  then show ?case by (simp add: r(1) mid)
qed

lemma codesLoop_Inr:
  "codesLoop builtin m r cs acc = Inr evs \<Longrightarrow>
     \<exists>new. evs = acc @ new
       \<and> list_all2 (\<lambda>c ev. makeEvent builtin m r c = Inr (Some ev))
            (filter (\<lambda>c. DAY_MAP c \<noteq> None) cs) new"
proof (induction cs arbitrary: acc)
  case Nil
  then show ?case by simp
next
  case (Cons c cs)
  show ?case
  proof (cases "makeEvent builtin m r c")
    case (Inl err)
    with Cons.prems show ?thesis by simp
  next
    case (Inr res)
    show ?thesis
    proof (cases res)
      case None
      with Inr Cons.prems have "codesLoop builtin m r cs acc = Inr evs" by simp
      from Cons.IH [OF this] obtain new where new: "evs = acc @ new"
        "list_all2 (\<lambda>c ev. makeEvent builtin m r c = Inr (Some ev))
            (filter (\<lambda>c. DAY_MAP c \<noteq> None) cs) new"
        by blast
      have "DAY_MAP c = None" using Inr None by (simp add: makeEvent_None)
      with new show ?thesis by auto
    next
      case (Some ev)
      with Inr Cons.prems have "codesLoop builtin m r cs (acc @ [ev]) = Inr evs" by simp
      from Cons.IH [OF this] obtain new where new: "evs = (acc @ [ev]) @ new"
        "list_all2 (\<lambda>c ev. makeEvent builtin m r c = Inr (Some ev))
            (filter (\<lambda>c. DAY_MAP c \<noteq> None) cs) new"
        by blast
      have mk: "makeEvent builtin m r c = Inr (Some ev)" using Inr Some by simp
      then have known: "DAY_MAP c \<noteq> None" using makeEvent_Some(1) [OF mk] by auto
      have "evs = acc @ (ev # new)" using new(1) by simp
      moreover have "list_all2 (\<lambda>c ev. makeEvent builtin m r c = Inr (Some ev))
            (filter (\<lambda>c. DAY_MAP c \<noteq> None) (c # cs)) (ev # new)"
        using known mk new(2) by simp
      ultimately show ?thesis by blast
    qed
  qed
qed

lemma rowsLoop_Inr:
  "rowsLoop builtin m rows acc = Inr evs \<Longrightarrow>
     \<exists>new. evs = acc @ new
       \<and> list_all2 (\<lambda>p ev. makeEvent builtin m (fst p) (snd p) = Inr (Some ev))
            (dayPairs rows) new"
proof (induction rows arbitrary: acc)
  case Nil
  then show ?case by (simp add: dayPairs_def)
next
  case (Cons r rows)
  from Cons.prems obtain cs where cs: "codes_of r = Inr cs"
    by (cases "codes_of r") simp_all
  from Cons.prems cs obtain mid where mid: "codesLoop builtin m r cs acc = Inr mid"
    by (cases "codesLoop builtin m r cs acc") simp_all
  from Cons.prems cs mid have rest: "rowsLoop builtin m rows mid = Inr evs" by simp
  from codesLoop_Inr [OF mid] obtain new1 where new1: "mid = acc @ new1"
    "list_all2 (\<lambda>c ev. makeEvent builtin m r c = Inr (Some ev))
            (filter (\<lambda>c. DAY_MAP c \<noteq> None) cs) new1"
    by blast
  from Cons.IH [OF rest] obtain new2 where new2: "evs = mid @ new2"
    "list_all2 (\<lambda>p ev. makeEvent builtin m (fst p) (snd p) = Inr (Some ev))
            (dayPairs rows) new2"
    by blast
  have days: "recognizedDays r = filter (\<lambda>c. DAY_MAP c \<noteq> None) cs"
    by (simp add: recognizedDays_def cs)
  have own: "list_all2 (\<lambda>p ev. makeEvent builtin m (fst p) (snd p) = Inr (Some ev))
            (map (Pair r) (recognizedDays r)) new1"
    using new1(2) by (simp add: days list_all2_map1)
  have "evs = acc @ (new1 @ new2)" using new1(1) new2(1) by simp
  moreover have "list_all2 (\<lambda>p ev. makeEvent builtin m (fst p) (snd p) = Inr (Some ev))
            (dayPairs (r # rows)) (new1 @ new2)"
    unfolding dayPairs_Cons using own new2(2) by (rule list_all2_appendI)
  ultimately show ?case by blast
qed

lemma rowsToEvents_Inr:
  assumes "rowsToEvents builtin now rows = Inr evs"
  shows "length evs = length (dayPairs rows)"
    and "i < length evs \<Longrightarrow>
           makeEvent builtin (getWeekStart now) (fst (dayPairs rows ! i)) (snd (dayPairs rows ! i))
             = Inr (Some (evs ! i))"
proof -
  from assms have "rowsLoop builtin (getWeekStart now) rows [] = Inr evs"
    by (simp add: rowsToEvents_def)
  from rowsLoop_Inr [OF this]
  have all: "list_all2 (\<lambda>p ev. makeEvent builtin (getWeekStart now) (fst p) (snd p) = Inr (Some ev))
            (dayPairs rows) evs"
    by simp
  show len: "length evs = length (dayPairs rows)"
    using all by (simp add: list_all2_lengthD)
  show "i < length evs \<Longrightarrow>
           makeEvent builtin (getWeekStart now) (fst (dayPairs rows ! i)) (snd (dayPairs rows ! i))
             = Inr (Some (evs ! i))"
    using all len by (auto dest: list_all2_nthD2)
qed


subsection \<open>Times of day\<close>

lemma timeOfDay_E:
  assumes "timeOfDay builtin v"
  obtains h m sec where "readTime builtin v = Some (h, m, sec)"
    and "0 \<le> h" "h < 24" "0 \<le> m" "m < 60" "0 \<le> sec" "sec < 60"
  using assms by (auto simp add: timeOfDay_def split: option.splits)

lemma timeOfDay_bounds:
  assumes "timeOfDay builtin v" and "readTime builtin v = Some (h, m, sec)"
  shows "0 \<le> h" "h < 24" "0 \<le> m" "m < 60" "0 \<le> sec" "sec < 60"
  using assms by (simp_all add: timeOfDay_def)

text \<open>
  Claim C5, as amended. Let every row have a day code that is a string or falsy and
  start and end times that are strings. Then the expansion succeeds, and its
  occurrences are, in order, one for each row and each day character of that row that
  \<open>DAY_MAP\<close> knows (\<open>dayPairs\<close>): as many per row as the row has such characters, the
  other characters being passed over without an error. The occurrence for row \<open>r\<close> and
  a character of weekday \<open>w\<close> carries the row's identifiers and display fields. Where
  the row's start (or end) is read as a time of day (\<open>timeOfDay\<close>), the instant is that
  time on day \<open>M + (w - 1)\<close>, \<open>M\<close> being the Monday (at midnight) of the week of the
  clock reading: it falls on weekday \<open>w\<close> and shows the hours, minutes and seconds
  read. A time with fewer than three components has seconds 0, and a falsy day code
  expands as \<open>M\<close>.
\<close>

theorem expansion_one_per_recognized_day:
  assumes ok: "\<forall>r\<in>set rows. (\<exists>codes. codes_of r = Inr codes)
                 \<and> (\<exists>s. start_time r = JStr s) \<and> (\<exists>e. end_time r = JStr e)"
  shows "\<exists>evs M.
           rowsToEvents builtin (Some n) rows = Inr evs
           \<and> getWeekStart (Some n) = Some (M * msPerDay)
           \<and> getDay (Some (M * msPerDay)) = Some 1
           \<and> M \<le> n div msPerDay \<and> n div msPerDay < M + 7
           \<and> length evs = length (dayPairs rows)
           \<and> length evs = sum_list (map (\<lambda>r. length (recognizedDays r)) rows)
           \<and> (\<forall>i < length evs.
                let r = fst (dayPairs rows ! i); code = snd (dayPairs rows ! i); ev = evs ! i in
                r \<in> set rows
                \<and> (\<exists>w. DAY_MAP code = Some w
                     \<and> id_ev ev = String_js (section_id r) @ ''-'' @ [code]
                     \<and> sectionId ev = section_id r
                     \<and> patternSlotId ev = pattern_slot_id r
                     \<and> timeSlotId ev = time_slot_id r
                     \<and> title ev = course_code r
                     \<and> professor ev = instructor_name r
                     \<and> room ev = room_name r
                     \<and> gradeLevel ev = String_js (grade_level r)
                     \<and> (timeOfDay builtin (start_time r) \<longrightarrow>
                          (\<exists>h m sec. readTime builtin (start_time r) = Some (h, m, sec)
                             \<and> start ev = Some ((M + (w - 1)) * msPerDay
                                  + (h * msPerHour + m * msPerMinute + sec * msPerSecond))
                             \<and> getDay (start ev) = Some w \<and> getHours (start ev) = Some h
                             \<and> getMinutes (start ev) = Some m \<and> getSeconds (start ev) = Some sec))
                     \<and> (timeOfDay builtin (end_time r) \<longrightarrow>
                          (\<exists>h m sec. readTime builtin (end_time r) = Some (h, m, sec)
                             \<and> end_ev ev = Some ((M + (w - 1)) * msPerDay
                                  + (h * msPerHour + m * msPerMinute + sec * msPerSecond))
                             \<and> getDay (end_ev ev) = Some w \<and> getHours (end_ev ev) = Some h
                             \<and> getMinutes (end_ev ev) = Some m
                             \<and> getSeconds (end_ev ev) = Some sec))))
           \<and> (codes_of r' = Inr codes \<longrightarrow>
                recognizedDays r' = filter (\<lambda>c. DAY_MAP c \<noteq> None) codes)
           \<and> (\<not> truthy (day_code r') \<longrightarrow> recognizedDays r' = ''M'')
           \<and> (readTime builtin (JStr s') = Some (h', m', sec') \<and> length (split_colon s') \<le> 2 \<longrightarrow>
                sec' = 0)"
proof -
  define M where "M = n div msPerDay - ((n div msPerDay + 4) mod 7 + 6) mod 7"
  have monday: "getWeekStart (Some n) = Some (M * msPerDay)"
    unfolding M_def by (rule getWeekStart_Some)
  have mon: "(M + 4) mod 7 = 1" and week: "M \<le> n div msPerDay" "n div msPerDay < M + 7"
    unfolding M_def by (rule monday_is_monday)+
  have mon_day: "getDay (Some (M * msPerDay)) = Some 1"
    using mon by (simp add: getDay_def msPerDay_def)
  from rowsLoop_succeeds [OF ok, of builtin "getWeekStart (Some n)" "[]"]
  obtain evs where run: "rowsToEvents builtin (Some n) rows = Inr evs"
    by (auto simp add: rowsToEvents_def)
  note len = rowsToEvents_Inr(1) [OF run]
  have count: "length evs = sum_list (map (\<lambda>r. length (recognizedDays r)) rows)"
    by (simp add: len length_dayPairs)
  have each:
    "fst (dayPairs rows ! i) \<in> set rows
     \<and> (\<exists>w. DAY_MAP (snd (dayPairs rows ! i)) = Some w
          \<and> id_ev (evs ! i) = String_js (section_id (fst (dayPairs rows ! i))) @ ''-''
                                @ [snd (dayPairs rows ! i)]
          \<and> sectionId (evs ! i) = section_id (fst (dayPairs rows ! i))
          \<and> patternSlotId (evs ! i) = pattern_slot_id (fst (dayPairs rows ! i))
          \<and> timeSlotId (evs ! i) = time_slot_id (fst (dayPairs rows ! i))
          \<and> title (evs ! i) = course_code (fst (dayPairs rows ! i))
          \<and> professor (evs ! i) = instructor_name (fst (dayPairs rows ! i))
          \<and> room (evs ! i) = room_name (fst (dayPairs rows ! i))
          \<and> gradeLevel (evs ! i) = String_js (grade_level (fst (dayPairs rows ! i)))
          \<and> (timeOfDay builtin (start_time (fst (dayPairs rows ! i))) \<longrightarrow>
               (\<exists>h m sec. readTime builtin (start_time (fst (dayPairs rows ! i))) = Some (h, m, sec)
                  \<and> start (evs ! i) = Some ((M + (w - 1)) * msPerDay
                       + (h * msPerHour + m * msPerMinute + sec * msPerSecond))
                  \<and> getDay (start (evs ! i)) = Some w \<and> getHours (start (evs ! i)) = Some h
                  \<and> getMinutes (start (evs ! i)) = Some m
                  \<and> getSeconds (start (evs ! i)) = Some sec))
          \<and> (timeOfDay builtin (end_time (fst (dayPairs rows ! i))) \<longrightarrow>
               (\<exists>h m sec. readTime builtin (end_time (fst (dayPairs rows ! i))) = Some (h, m, sec)
                  \<and> end_ev (evs ! i) = Some ((M + (w - 1)) * msPerDay
                       + (h * msPerHour + m * msPerMinute + sec * msPerSecond))
                  \<and> getDay (end_ev (evs ! i)) = Some w \<and> getHours (end_ev (evs ! i)) = Some h
                  \<and> getMinutes (end_ev (evs ! i)) = Some m
                  \<and> getSeconds (end_ev (evs ! i)) = Some sec)))"
    if i: "i < length evs" for i
  proof -
    define r where "r = fst (dayPairs rows ! i)"
    define c where "c = snd (dayPairs rows ! i)"
    have mem: "dayPairs rows ! i \<in> set (dayPairs rows)" using i len by simp
    then have r_in: "r \<in> set rows" and known: "DAY_MAP c \<noteq> None"
      using dayPairs_mem [OF mem] by (simp_all add: r_def c_def)
    from known obtain w where w: "DAY_MAP c = Some w" by blast
    have wr: "1 \<le> w" "w \<le> 5" using DAY_MAP_range [OF w] by simp_all
    have mk: "makeEvent builtin (Some (M * msPerDay)) r c = Inr (Some (evs ! i))"
      using rowsToEvents_Inr(2) [OF run i] by (simp add: monday r_def c_def)
    note f = makeEvent_Some(2-9) [OF mk]
    have st: "\<exists>h m sec. readTime builtin (start_time r) = Some (h, m, sec)
                \<and> start (evs ! i) = Some ((M + (w - 1)) * msPerDay
                     + (h * msPerHour + m * msPerMinute + sec * msPerSecond))
                \<and> getDay (start (evs ! i)) = Some w \<and> getHours (start (evs ! i)) = Some h
                \<and> getMinutes (start (evs ! i)) = Some m
                \<and> getSeconds (start (evs ! i)) = Some sec"
      if t: "timeOfDay builtin (start_time r)"
    proof -
      from t obtain h m sec where rt: "readTime builtin (start_time r) = Some (h, m, sec)"
        and b: "0 \<le> h" "h < 24" "0 \<le> m" "m < 60" "0 \<le> sec" "sec < 60"
        by (rule timeOfDay_E)
      have s: "start (evs ! i) = Some ((M + (w - 1)) * msPerDay
                                 + (h * msPerHour + m * msPerMinute + sec * msPerSecond))"
        by (rule makeEvent_start [OF mk w rt])
      note g = weekday_instant [OF mon wr b]
      have "getDay (start (evs ! i)) = Some w" "getHours (start (evs ! i)) = Some h"
        "getMinutes (start (evs ! i)) = Some m" "getSeconds (start (evs ! i)) = Some sec"
        using g(2-5) by (simp_all only: s)
      with rt s show ?thesis by blast
    qed
    have en: "\<exists>h m sec. readTime builtin (end_time r) = Some (h, m, sec)
                \<and> end_ev (evs ! i) = Some ((M + (w - 1)) * msPerDay
                     + (h * msPerHour + m * msPerMinute + sec * msPerSecond))
                \<and> getDay (end_ev (evs ! i)) = Some w \<and> getHours (end_ev (evs ! i)) = Some h
                \<and> getMinutes (end_ev (evs ! i)) = Some m
                \<and> getSeconds (end_ev (evs ! i)) = Some sec"
      if t: "timeOfDay builtin (end_time r)"
    proof -
      from t obtain h m sec where rt: "readTime builtin (end_time r) = Some (h, m, sec)"
        and b: "0 \<le> h" "h < 24" "0 \<le> m" "m < 60" "0 \<le> sec" "sec < 60"
        by (rule timeOfDay_E)
      have s: "end_ev (evs ! i) = Some ((M + (w - 1)) * msPerDay
                                 + (h * msPerHour + m * msPerMinute + sec * msPerSecond))"
        by (rule makeEvent_end [OF mk w rt])
      note g = weekday_instant [OF mon wr b]
      have "getDay (end_ev (evs ! i)) = Some w" "getHours (end_ev (evs ! i)) = Some h"
        "getMinutes (end_ev (evs ! i)) = Some m" "getSeconds (end_ev (evs ! i)) = Some sec"
        using g(2-5) by (simp_all only: s)
      with rt s show ?thesis by blast
    qed
    show ?thesis
      unfolding r_def [symmetric] c_def [symmetric]
      using r_in w f st en by blast
  qed
  have days: "codes_of r' = Inr codes \<longrightarrow>
                recognizedDays r' = filter (\<lambda>c. DAY_MAP c \<noteq> None) codes"
    by (simp add: recognizedDays_def)
  have dflt: "\<not> truthy (day_code r') \<longrightarrow> recognizedDays r' = ''M''"
    by (simp add: recognizedDays_falsy)
  have miss: "readTime builtin (JStr s') = Some (h', m', sec') \<and> length (split_colon s') \<le> 2 \<longrightarrow>
                sec' = 0"
    using readTime_missing_seconds by blast
  show ?thesis
    unfolding Let_def
    using run monday mon_day week len count each days dflt miss by blast
qed

text \<open>
  Section A with day code \<open>MXW\<close> and start time \<open>09:00\<close>, followed by section B: the
  \<open>X\<close> is passed over and the missing seconds are zero, giving the three occurrences.
\<close>

theorem expansion_one_per_recognized_day_witness:
  "codes_of (ex_secA\<lparr> day_code := JStr ''MXW'', start_time := JStr ''09:00'' \<rparr>) = Inr ''MXW''
   \<and> start_time (ex_secA\<lparr> day_code := JStr ''MXW'', start_time := JStr ''09:00'' \<rparr>) = JStr ''09:00''
   \<and> end_time (ex_secA\<lparr> day_code := JStr ''MXW'', start_time := JStr ''09:00'' \<rparr>) = JStr ''10:00:00''
   \<and> codes_of ex_secB = Inr ''M''
   \<and> start_time ex_secB = JStr ''09:30:00'' \<and> end_time ex_secB = JStr ''10:30:00''
   \<and> recognizedDays (ex_secA\<lparr> day_code := JStr ''MXW'', start_time := JStr ''09:00'' \<rparr>) = ''MW''
   \<and> readTime ex_Number (JStr ''09:00'') = Some (9, 0, 0)
   \<and> timeOfDay ex_Number (JStr ''09:00'') \<and> length (split_colon ''09:00'') \<le> 2
   \<and> getDay (start ex_A_Wed) = Some 3 \<and> getHours (start ex_A_Wed) = Some 9
   \<and> getMinutes (start ex_A_Wed) = Some 0 \<and> getSeconds (start ex_A_Wed) = Some 0
   \<and> (\<exists>evs. rowsToEvents ex_Number (Some 0)
                [ex_secA\<lparr> day_code := JStr ''MXW'', start_time := JStr ''09:00'' \<rparr>, ex_secB]
              = Inr evs
            \<and> length evs
              = length (dayPairs
                  [ex_secA\<lparr> day_code := JStr ''MXW'', start_time := JStr ''09:00'' \<rparr>, ex_secB]))
   \<and> rowsToEvents ex_Number (Some 0)
        [ex_secA\<lparr> day_code := JStr ''MXW'', start_time := JStr ''09:00'' \<rparr>, ex_secB]
       = Inr [ex_A_Mon, ex_A_Wed, ex_B_Mon]"
proof -
  let ?r = "ex_secA\<lparr> day_code := JStr ''MXW'', start_time := JStr ''09:00'' \<rparr>"
  have ca: "codes_of ?r = Inr ''MXW''" and cb: "codes_of ex_secB = Inr ''M''"
    by code_simp+
  have ta: "start_time ?r = JStr ''09:00''" "end_time ?r = JStr ''10:00:00''"
    by (simp_all add: ex_secA_def)
  have tb: "start_time ex_secB = JStr ''09:30:00''" "end_time ex_secB = JStr ''10:30:00''"
    by (simp_all add: ex_secB_def)
  have days: "recognizedDays ?r = ''MW''" by code_simp
  have read: "readTime ex_Number (JStr ''09:00'') = Some (9, 0, 0)" by code_simp
  have tod: "timeOfDay ex_Number (JStr ''09:00'')" "length (split_colon ''09:00'') \<le> 2"
    by code_simp+
  have wed: "getDay (start ex_A_Wed) = Some 3" "getHours (start ex_A_Wed) = Some 9"
    "getMinutes (start ex_A_Wed) = Some 0" "getSeconds (start ex_A_Wed) = Some 0"
    by code_simp+
  have run: "rowsToEvents ex_Number (Some 0) [?r, ex_secB] = Inr [ex_A_Mon, ex_A_Wed, ex_B_Mon]"
    by code_simp
  have ok: "\<forall>r\<in>set [?r, ex_secB]. (\<exists>codes. codes_of r = Inr codes)
                 \<and> (\<exists>s. start_time r = JStr s) \<and> (\<exists>e. end_time r = JStr e)"
    using ca cb ta tb by simp
  from expansion_one_per_recognized_day [OF ok, of ex_Number 0]
  have "\<exists>evs. rowsToEvents ex_Number (Some 0) [?r, ex_secB] = Inr evs
            \<and> length evs = length (dayPairs [?r, ex_secB])"
    by blast
  then show ?thesis using ca cb ta tb days read tod wed run by blast
qed

text \<open>
  Claim C5 as stated fails: the day code \<open>MX\<close> has length 2 and expands to one
  occurrence.
\<close>

theorem unrecognized_day_counterexample:
  "length ''MX'' = 2
   \<and> rowsToEvents ex_Number (Some 0) [ex_secA\<lparr> day_code := JStr ''MX'' \<rparr>] = Inr [ex_A_Mon]"
  by code_simp

subsection \<open>Identities\<close>

lemma id_key_inj: "inj (\<lambda>k :: string \<times> char. fst k @ ''-'' @ [snd k])"
  by (rule injI) (auto simp add: prod_eq_iff)

lemma distinct_map_inj: "inj f \<Longrightarrow> distinct (map f xs) = distinct xs"
  using inj_on_subset [of f UNIV "set xs"] by (auto simp add: distinct_map)

text \<open>
  Claim C8, as amended. The occurrences of a successful expansion are, in order, the
  ones built for each row and each of its recognized day characters; the occurrence
  built for row \<open>r\<close> and character \<open>c\<close> is placed from the weekday of \<open>c\<close>, has the
  section identity of \<open>r\<close> and the identity \<open>String(sectionId) + "-" + c\<close>. The
  identities are pairwise different exactly when no pair of a section identity (as a
  string) and a day character is produced twice.
\<close>

theorem occurrence_identity:
  assumes run: "rowsToEvents builtin now rows = Inr evs"
  shows "length evs = length (dayPairs rows)
       \<and> (\<forall>i < length evs.
            let r = fst (dayPairs rows ! i); code = snd (dayPairs rows ! i); ev = evs ! i in
            makeEvent builtin (getWeekStart now) r code = Inr (Some ev)
            \<and> (\<exists>w. DAY_MAP code = Some w
                 \<and> (\<exists>h m s. start ev
                      = setHours (setDate_plus (getWeekStart now) (Some (w - 1))) h m s (Some 0)))
            \<and> sectionId ev = section_id r
            \<and> id_ev ev = String_js (sectionId ev) @ ''-'' @ [code])
       \<and> (distinct (map id_ev evs)
            \<longleftrightarrow> distinct (map (\<lambda>p. (String_js (section_id (fst p)), snd p)) (dayPairs rows)))"
proof -
  note len = rowsToEvents_Inr(1) [OF run]
  have each: "makeEvent builtin (getWeekStart now) (fst (dayPairs rows ! i)) (snd (dayPairs rows ! i))
                = Inr (Some (evs ! i))
            \<and> (\<exists>w. DAY_MAP (snd (dayPairs rows ! i)) = Some w
                 \<and> (\<exists>h m s. start (evs ! i)
                      = setHours (setDate_plus (getWeekStart now) (Some (w - 1))) h m s (Some 0)))
            \<and> sectionId (evs ! i) = section_id (fst (dayPairs rows ! i))
            \<and> id_ev (evs ! i) = String_js (sectionId (evs ! i)) @ ''-'' @ [snd (dayPairs rows ! i)]"
    if i: "i < length evs" for i
  proof -
    note mk = rowsToEvents_Inr(2) [OF run i]
    note f = makeEvent_Some(1-3) [OF mk]
    from f(1) have "\<exists>w. DAY_MAP (snd (dayPairs rows ! i)) = Some w
                 \<and> (\<exists>h m s. start (evs ! i)
                      = setHours (setDate_plus (getWeekStart now) (Some (w - 1))) h m s (Some 0))"
      by blast
    with mk f(2,3) show ?thesis by simp
  qed
  have ids: "map id_ev evs
             = map (\<lambda>k. fst k @ ''-'' @ [snd k])
                 (map (\<lambda>p. (String_js (section_id (fst p)), snd p)) (dayPairs rows))"
  proof (rule nth_equalityI)
    show "length (map id_ev evs)
          = length (map (\<lambda>k. fst k @ ''-'' @ [snd k])
                     (map (\<lambda>p. (String_js (section_id (fst p)), snd p)) (dayPairs rows)))"
      by (simp add: len)
    fix i assume "i < length (map id_ev evs)"
    then have i: "i < length evs" by simp
    from each [OF i] have "id_ev (evs ! i)
         = String_js (section_id (fst (dayPairs rows ! i))) @ ''-'' @ [snd (dayPairs rows ! i)]"
      by simp
    then show "map id_ev evs ! i
          = map (\<lambda>k. fst k @ ''-'' @ [snd k])
              (map (\<lambda>p. (String_js (section_id (fst p)), snd p)) (dayPairs rows)) ! i"
      using i len by simp
  qed
  have "distinct (map id_ev evs)
        \<longleftrightarrow> distinct (map (\<lambda>p. (String_js (section_id (fst p)), snd p)) (dayPairs rows))"
    unfolding ids
    by (rule distinct_map_inj [OF id_key_inj])
  with len each show ?thesis unfolding Let_def by blast
qed


text \<open>
  Section 1 with a lecture row (\<open>MW\<close>) and a laboratory row on Friday: one section in
  two rows, three different identities.
\<close>

theorem occurrence_identity_witness:
  "rowsToEvents ex_Number (Some 0) [ex_secA, ex_labA\<lparr> day_code := JStr ''F'' \<rparr>]
     = Inr [ex_A_Mon, ex_A_Wed,
            ex_L_Mon\<lparr> id_ev := ''1-F'', start := Some 136800000, end_ev := Some 144000000 \<rparr>]
   \<and> String_js (section_id ex_secA) = String_js (section_id (ex_labA\<lparr> day_code := JStr ''F'' \<rparr>))
   \<and> distinct (map (\<lambda>p. (String_js (section_id (fst p)), snd p))
                 (dayPairs [ex_secA, ex_labA\<lparr> day_code := JStr ''F'' \<rparr>]))
   \<and> map id_ev [ex_A_Mon, ex_A_Wed,
            ex_L_Mon\<lparr> id_ev := ''1-F'', start := Some 136800000, end_ev := Some 144000000 \<rparr>]
       = [''1-M'', ''1-W'', ''1-F'']
   \<and> distinct (map id_ev [ex_A_Mon, ex_A_Wed,
            ex_L_Mon\<lparr> id_ev := ''1-F'', start := Some 136800000, end_ev := Some 144000000 \<rparr>])"
proof -
  have run: "rowsToEvents ex_Number (Some 0) [ex_secA, ex_labA\<lparr> day_code := JStr ''F'' \<rparr>]
     = Inr [ex_A_Mon, ex_A_Wed,
            ex_L_Mon\<lparr> id_ev := ''1-F'', start := Some 136800000, end_ev := Some 144000000 \<rparr>]"
    by code_simp
  have same: "String_js (section_id ex_secA)
              = String_js (section_id (ex_labA\<lparr> day_code := JStr ''F'' \<rparr>))"
    by code_simp
  have keys: "distinct (map (\<lambda>p. (String_js (section_id (fst p)), snd p))
                 (dayPairs [ex_secA, ex_labA\<lparr> day_code := JStr ''F'' \<rparr>]))"
    by code_simp
  have ids: "map id_ev [ex_A_Mon, ex_A_Wed,
            ex_L_Mon\<lparr> id_ev := ''1-F'', start := Some 136800000, end_ev := Some 144000000 \<rparr>]
       = [''1-M'', ''1-W'', ''1-F'']"
    by code_simp
  from occurrence_identity [OF run] keys
  have "distinct (map id_ev [ex_A_Mon, ex_A_Wed,
            ex_L_Mon\<lparr> id_ev := ''1-F'', start := Some 136800000, end_ev := Some 144000000 \<rparr>])"
    by blast
  then show ?thesis using run same keys ids by blast
qed

text \<open>
  Claim C8 as stated fails: section 1 with a lecture row (\<open>MW\<close>) and a laboratory row
  (\<open>M\<close>, another pattern slot and time slot) yields the identity \<open>1-M\<close> twice.
\<close>

theorem shared_section_day_counterexample:
  "map_sum id (map id_ev) (rowsToEvents ex_Number (Some 0) [ex_secA, ex_labA])
     = Inr [''1-M'', ''1-W'', ''1-M'']
   \<and> \<not> distinct [''1-M'', ''1-W'', ''1-M'']"
  by code_simp

section \<open>Weekdays and conflicts\<close>

lemma day_bounds:
  fixes x :: int
  shows "x div 86400000 * 86400000 \<le> x" and "x < x div 86400000 * 86400000 + 86400000"
proof -
  have "x = x div 86400000 * 86400000 + x mod 86400000" by simp
  moreover have "0 \<le> x mod 86400000" "x mod 86400000 < 86400000" by simp_all
  ultimately show "x div 86400000 * 86400000 \<le> x"
    and "x < x div 86400000 * 86400000 + 86400000"
    by linarith+
qed

lemma day_of_instant:
  fixes D ts :: int
  assumes "0 \<le> ts" "ts < msPerDay"
  shows "(D * msPerDay + ts) div msPerDay = D"
proof -
  have "ts div 86400000 = 0" using assms by (simp add: msPerDay_def)
  then show ?thesis by (simp add: msPerDay_def)
qed

lemma other_day_no_overlap:
  fixes s e D ts te :: int
  assumes day: "s div msPerDay = e div msPerDay"
      and b: "0 \<le> ts" "ts < msPerDay" "0 \<le> te" "te < msPerDay"
      and diff: "getDay (Some s) \<noteq> getDay (Some (D * msPerDay + ts))"
  shows "\<not> timesOverlap (Some s) (Some e) (Some (D * msPerDay + ts)) (Some (D * msPerDay + te))"
proof -
  define Ds where "Ds = s div msPerDay"
  have D: "(D * msPerDay + ts) div msPerDay = D" using b by (simp add: day_of_instant)
  have ne: "Ds \<noteq> D" using diff by (auto simp add: getDay_def D Ds_def)
  have Ds: "Ds = s div 86400000" "Ds = e div 86400000"
    using day by (simp_all add: Ds_def msPerDay_def)
  have s: "Ds * 86400000 \<le> s" "s < Ds * 86400000 + 86400000"
    unfolding Ds(1) by (rule day_bounds)+
  have e: "Ds * 86400000 \<le> e" "e < Ds * 86400000 + 86400000"
    unfolding Ds(2) by (rule day_bounds)+
  show ?thesis
  proof (cases "Ds < D")
    case True
    then have "Ds * 86400000 + 86400000 \<le> D * 86400000" by simp
    with e b show ?thesis by (simp add: timesOverlap_def msPerDay_def)
  next
    case False
    with ne have "D * 86400000 + 86400000 \<le> Ds * 86400000" by simp
    with s b show ?thesis by (simp add: timesOverlap_def msPerDay_def)
  qed
qed

lemma concat_map_filter_empty:
  "(\<And>x. x \<in> set xs \<Longrightarrow> \<not> P x \<Longrightarrow> f x = []) \<Longrightarrow>
   concat (map f (filter P xs)) = concat (map f xs)"
  by (induction xs) auto

lemma expanded_within_day:
  assumes run: "rowsToEvents builtin (Some n) rows = Inr evs"
      and tod: "\<forall>r\<in>set rows. timeOfDay builtin (start_time r) \<and> timeOfDay builtin (end_time r)"
      and b: "b \<in> set evs"
  shows "\<exists>D ts te. start b = Some (D * msPerDay + ts) \<and> end_ev b = Some (D * msPerDay + te)
           \<and> 0 \<le> ts \<and> ts < msPerDay \<and> 0 \<le> te \<and> te < msPerDay"
proof -
  from b obtain i where i: "i < length evs" and bi: "b = evs ! i"
    by (auto simp add: in_set_conv_nth)
  define r where "r = fst (dayPairs rows ! i)"
  define c where "c = snd (dayPairs rows ! i)"
  have mem: "dayPairs rows ! i \<in> set (dayPairs rows)"
    using i rowsToEvents_Inr(1) [OF run] by simp
  have r_in: "r \<in> set rows" and known: "DAY_MAP c \<noteq> None"
    using dayPairs_mem [OF mem] by (simp_all add: r_def c_def)
  from known obtain w where w: "DAY_MAP c = Some w" by blast
  have mk: "makeEvent builtin (Some ((n div msPerDay - ((n div msPerDay + 4) mod 7 + 6) mod 7)
              * msPerDay)) r c = Inr (Some b)"
    using rowsToEvents_Inr(2) [OF run i] by (simp add: getWeekStart_Some r_def c_def bi)
  from tod r_in have t: "timeOfDay builtin (start_time r)" "timeOfDay builtin (end_time r)"
    by simp_all
  from t(1) obtain sh sm ss where rs: "readTime builtin (start_time r) = Some (sh, sm, ss)"
    and sb: "0 \<le> sh" "sh < 24" "0 \<le> sm" "sm < 60" "0 \<le> ss" "ss < 60"
    by (rule timeOfDay_E)
  from t(2) obtain eh em es where re: "readTime builtin (end_time r) = Some (eh, em, es)"
    and eb: "0 \<le> eh" "eh < 24" "0 \<le> em" "em < 60" "0 \<le> es" "es < 60"
    by (rule timeOfDay_E)
  note s = makeEvent_start [OF mk w rs] and e = makeEvent_end [OF mk w re]
  have "0 \<le> sh * msPerHour + sm * msPerMinute + ss * msPerSecond"
    "sh * msPerHour + sm * msPerMinute + ss * msPerSecond < msPerDay"
    unfolding msPerDay_def msPerHour_def msPerMinute_def msPerSecond_def
    by (rule hms_bounds [OF sb])+
  moreover have "0 \<le> eh * msPerHour + em * msPerMinute + es * msPerSecond"
    "eh * msPerHour + em * msPerMinute + es * msPerSecond < msPerDay"
    unfolding msPerDay_def msPerHour_def msPerMinute_def msPerSecond_def
    by (rule hms_bounds [OF eb])+
  ultimately show ?thesis using s e by blast
qed

text \<open>
  Claim C10, as amended. Let the rows have start and end times that are read as times
  of day (\<open>timeOfDay\<close>) and expand successfully. Two occurrences of the expansion whose
  starts fall on different weekdays never overlap. If the proposed start \<open>s\<close> and end
  \<open>e\<close> of a moved occurrence lie on one calendar day, then an occurrence of the
  expansion on another weekday than \<open>s\<close> does not overlap the proposed range and adds
  nothing to the conflict list, so the conflict list is the one computed from the
  occurrences on the weekday of \<open>s\<close> alone; this covers the other occurrences of the
  moved section itself.
\<close>

theorem different_weekdays_never_overlap:
  assumes run: "rowsToEvents builtin (Some n) rows = Inr evs"
      and tod: "\<forall>r\<in>set rows. timeOfDay builtin (start_time r) \<and> timeOfDay builtin (end_time r)"
  shows "(\<forall>a\<in>set evs. \<forall>b\<in>set evs. getDay (start a) \<noteq> getDay (start b) \<longrightarrow>
            \<not> timesOverlap (start a) (end_ev a) (start b) (end_ev b))
       \<and> (s div msPerDay = e div msPerDay \<longrightarrow>
            (\<forall>b\<in>set evs. getDay (start b) \<noteq> getDay (Some s) \<longrightarrow>
               \<not> timesOverlap (Some s) (Some e) (start b) (end_ev b)
               \<and> checkOther (ev\<lparr> start := Some s, end_ev := Some e \<rparr>) b conflicts = conflicts)
            \<and> detectLoop (ev\<lparr> start := Some s, end_ev := Some e \<rparr>) evs []
                = detectLoop (ev\<lparr> start := Some s, end_ev := Some e \<rparr>)
                    (filter (\<lambda>b. getDay (start b) = getDay (Some s)) evs) [])"
proof -
  have apart: "\<not> timesOverlap (Some s') (Some e') (start b) (end_ev b)"
    if "b \<in> set evs" and "s' div msPerDay = e' div msPerDay"
      and "getDay (start b) \<noteq> getDay (Some s')" for b s' e'
  proof -
    from expanded_within_day [OF run tod that(1)] obtain D ts te
      where b: "start b = Some (D * msPerDay + ts)" "end_ev b = Some (D * msPerDay + te)"
        and r: "0 \<le> ts" "ts < msPerDay" "0 \<le> te" "te < msPerDay"
      by blast
    have "getDay (Some s') \<noteq> getDay (Some (D * msPerDay + ts))"
      using that(3) b(1) by simp
    from other_day_no_overlap [OF that(2) r this] show ?thesis
      by (simp add: b)
  qed
  have first: "\<not> timesOverlap (start a) (end_ev a) (start b) (end_ev b)"
    if a: "a \<in> set evs" and b: "b \<in> set evs" and d: "getDay (start a) \<noteq> getDay (start b)"
    for a b
  proof -
    from expanded_within_day [OF run tod a] obtain D ts te
      where sa: "start a = Some (D * msPerDay + ts)" "end_ev a = Some (D * msPerDay + te)"
        and r: "0 \<le> ts" "ts < msPerDay" "0 \<le> te" "te < msPerDay"
      by blast
    have same: "(D * msPerDay + ts) div msPerDay = (D * msPerDay + te) div msPerDay"
      using r by (simp add: day_of_instant)
    have "getDay (start b) \<noteq> getDay (Some (D * msPerDay + ts))" using d sa(1) by simp
    from apart [OF b same this] show ?thesis by (simp add: sa)
  qed
  have second: "\<not> timesOverlap (Some s) (Some e) (start b) (end_ev b)
               \<and> checkOther (ev\<lparr> start := Some s, end_ev := Some e \<rparr>) b conflicts = conflicts"
    if "s div msPerDay = e div msPerDay" "b \<in> set evs" "getDay (start b) \<noteq> getDay (Some s)"
    for b conflicts
    using apart [OF that(2) that(1) that(3)] by (simp add: checkOther_def)
  have third: "detectLoop (ev\<lparr> start := Some s, end_ev := Some e \<rparr>) evs []
                = detectLoop (ev\<lparr> start := Some s, end_ev := Some e \<rparr>)
                    (filter (\<lambda>b. getDay (start b) = getDay (Some s)) evs) []"
    if "s div msPerDay = e div msPerDay"
    unfolding detectLoop_concat append_Nil
    by (rule concat_map_filter_empty [symmetric]) (simp add: second [OF that])
  from first second third show ?thesis by blast
qed

lemma ex_expand: "rowsToEvents ex_Number (Some 0) [ex_secA, ex_secB] = Inr ex_events"
  by code_simp

text \<open>
  Section A's Monday occurrence moved to 09:30 to 10:30: its Wednesday sibling does not
  overlap and adds no entry.
\<close>

theorem different_weekdays_never_overlap_witness:
  "rowsToEvents ex_Number (Some 0) [ex_secA, ex_secB] = Inr ex_events
   \<and> timeOfDay ex_Number (start_time ex_secA) \<and> timeOfDay ex_Number (end_time ex_secA)
   \<and> timeOfDay ex_Number (start_time ex_secB) \<and> timeOfDay ex_Number (end_time ex_secB)
   \<and> (- 225000000) div msPerDay = (- 221400000) div msPerDay
   \<and> ex_A_Wed \<in> set ex_events
   \<and> getDay (start ex_A_Wed) \<noteq> getDay (Some (- 225000000))
   \<and> \<not> timesOverlap (Some (- 225000000)) (Some (- 221400000)) (start ex_A_Wed) (end_ev ex_A_Wed)
   \<and> checkOther (ex_A_Mon\<lparr> start := Some (- 225000000), end_ev := Some (- 221400000) \<rparr>)
        ex_A_Wed [] = []"
proof -
  have ta: "timeOfDay ex_Number (start_time ex_secA)" "timeOfDay ex_Number (end_time ex_secA)"
    and tb: "timeOfDay ex_Number (start_time ex_secB)" "timeOfDay ex_Number (end_time ex_secB)"
    by code_simp+
  have tod: "\<forall>r\<in>set [ex_secA, ex_secB].
               timeOfDay ex_Number (start_time r) \<and> timeOfDay ex_Number (end_time r)"
    using ta tb by simp
  have day: "(- 225000000) div msPerDay = (- 221400000) div msPerDay" by code_simp
  have mem: "ex_A_Wed \<in> set ex_events" by (simp add: ex_events_def)
  have wd: "getDay (start ex_A_Wed) \<noteq> getDay (Some (- 225000000))" by code_simp
  from different_weekdays_never_overlap
         [OF ex_expand tod, of "- 225000000" "- 221400000" ex_A_Mon "[]"]
  have "\<not> timesOverlap (Some (- 225000000)) (Some (- 221400000)) (start ex_A_Wed) (end_ev ex_A_Wed)
        \<and> checkOther (ex_A_Mon\<lparr> start := Some (- 225000000), end_ev := Some (- 221400000) \<rparr>)
            ex_A_Wed [] = []"
    using day mem wd by blast
  then show ?thesis using ex_expand ta tb day mem wd by blast
qed

text \<open>
  Claim C10 as stated fails. Section N meets Monday and Tuesday 00:10 to 02:00. Its
  Monday occurrence dragged to Monday 23:00 keeps the weekday of its start and ends on
  Tuesday 00:50; the range overlaps the section's own Tuesday occurrence, and the
  detector reports three conflicts with it.
\<close>

theorem midnight_crossing_counterexample:
  "rowsToEvents ex_Number (Some 0) [ex_secN] = Inr [ex_N_Mon, ex_N_Tue]
   \<and> timeOfDay ex_Number (start_time ex_secN) \<and> timeOfDay ex_Number (end_time ex_secN)
   \<and> \<not> strict_ne (getDay (start ex_N_Mon)) (getDay (Some (- 176400000)))
   \<and> getDay (start ex_N_Mon) = Some 1
   \<and> getDay (start ex_N_Tue) = Some 2
   \<and> timeSlotId ex_N_Tue = timeSlotId ex_N_Mon
   \<and> timesOverlap (Some (- 176400000)) (Some (- 169800000)) (start ex_N_Tue) (end_ev ex_N_Tue)
   \<and> detectLoop (ex_N_Mon\<lparr> start := Some (- 176400000), end_ev := Some (- 169800000) \<rparr>)
        [ex_N_Mon, ex_N_Tue] []
       = [professorMsg ex_N_Mon ex_N_Tue, roomMsg ex_N_Mon ex_N_Tue, gradeMsg ex_N_Mon ex_N_Tue]"
  by code_simp

end
